theory Spec2Isabelle
  imports Complex_Main "HOL-Library.Sublist"
begin

section \<open>Data model (schemas.py)\<close>

text \<open>
  The pydantic models are records. An \<open>Optional\<close> attribute is an \<open>option\<close>; an
  integer attribute that the schema constrains with \<open>ge=0\<close> is a \<open>nat\<close>, an
  unconstrained one an \<open>int\<close>. Python's \<open>float\<close> (the prices) is the type
  parameter \<open>'f\<close> with \<open>0\<close> for \<open>0.0\<close> and \<open>+\<close> for the addition of floats; no law
  of arithmetic is assumed of it. Python's \<open>str.lower\<close> is a parameter of the
  rules that call it, named \<open>lower\<close>: nothing is assumed of it.
\<close>

record 'f Component =
  name :: string
  type :: string
  brand :: "string option"
  model :: "string option"
  socket :: "string option"
  chipset :: "string option"
  tdp :: "nat option"
  ram_type :: "string option"
  ram_speed :: "nat option"
  ram_slots :: "nat option"
  pcie_version :: "string option"
  gpu_length_mm :: "nat option"
  max_gpu_length_mm :: "nat option"
  psu_wattage :: "nat option"
  psu_form_factor :: "string option"
  case_supported_psu :: "string list option"
  case_motherboard_support :: "string list option"
  motherboard_form_factor :: "string option"
  cooler_height_mm :: "int option"
  case_max_cooler_height_mm :: "int option"
  storage_interface :: "string option"
  m2_slots :: "int option"
  price :: "'f option"
  image :: "string option"
  url :: "string option"

record BuildComponent =
  component_id :: string
  type :: string

record 'f Build =
  title :: string
  description :: "string option"
  creator_id :: "string option"
  is_anchor :: bool
  components :: "BuildComponent list"
  total_price :: "'f option"
  likes :: int

section \<open>The document store and the errors\<close>

text \<open>
  \<open>db["component"]\<close> is a partial map from record keys (type \<open>'k\<close>, bson's ObjectId) to
  component documents, \<open>db["build"]\<close> the list of the stored build documents in insertion
  order. \<open>find_log\<close> records the keys that \<open>db["component"].find_one\<close> was called with,
  in call order: it is the observation of the store accesses, not a collection.
\<close>

record ('k, 'f) database =
  component :: "'k \<Rightarrow> 'f Component option"
  build :: "'f Build list"
  find_log :: "'k list"

datatype detail = Text string | Errors "string list"

datatype error = HTTPException nat detail | OverflowError

text \<open>
  \<open>oid\<close>: the constructor \<open>ObjectId\<close> of the bson library is a parameter; \<open>None\<close> stands
  for any exception it raises.
\<close>

definition oid :: "(string \<Rightarrow> 'k option) \<Rightarrow> string \<Rightarrow> error + 'k" where
  "oid ObjectId id_str =
     (case ObjectId id_str of
        Some k \<Rightarrow> Inr k
      | None \<Rightarrow> Inl (HTTPException 400 (Text ''Invalid id'')))"

definition find_one :: "'k \<Rightarrow> ('k, 'f) database \<Rightarrow> 'f Component option \<times> ('k, 'f) database" where
  "find_one k s = (component s k, s\<lparr>find_log := find_log s @ [k]\<rparr>)"

section \<open>Python primitives\<close>

text \<open>\<open>int.bit_length\<close>.\<close>

fun bit_length :: "nat \<Rightarrow> nat" where
  "bit_length n = (if n = 0 then 0 else Suc (bit_length (n div 2)))"

declare bit_length.simps [simp del]

text \<open>
  Rounding of a natural number to 53 significant bits, ties to even: the rounding of
  IEEE 754 binary64, which is scale invariant.
\<close>

definition round53 :: "nat \<Rightarrow> nat" where
  "round53 n =
     (let k = bit_length n in
      if k \<le> 53 then n
      else
        let sh = k - 53;
            q = n div 2 ^ sh;
            r = n mod 2 ^ sh;
            h = 2 ^ (sh - 1)
        in (if h < r \<or> (r = h \<and> odd q) then q + 1 else q) * 2 ^ sh)"

text \<open>
  \<open>int(total_tdp * 1.3)\<close> for a non-negative \<open>int\<close>. The literal \<open>1.3\<close> is the double
  \<open>5854679515581645 / 2 ^ 52\<close>. Python converts the \<open>int\<close> to a double (correctly
  rounded; OverflowError from \<open>2 ^ 1024\<close> on), multiplies two doubles (correctly
  rounded; infinity from \<open>2 ^ 1024\<close> on), and \<open>int\<close> truncates (OverflowError on
  infinity). The product is kept as a multiple of \<open>1 / 2 ^ 52\<close>.
\<close>

definition int_mul_1_3 :: "nat \<Rightarrow> error + nat" where
  "int_mul_1_3 total_tdp =
     (let a = round53 total_tdp in
      if 2 ^ 1024 \<le> a then Inl OverflowError
      else
        let p = round53 (a * 5854679515581645) in
        if 2 ^ 1076 \<le> p then Inl OverflowError else Inr (p div 2 ^ 52))"

section \<open>Wattage estimation (main.py, estimate\_wattage)\<close>

text \<open>
  The loop over \<open>build.components\<close>, with the running \<open>total_tdp\<close>. A document that
  \<open>find_one\<close> returns is a non-empty dict, hence truthy; \<open>comp.get("tdp")\<close> is truthy
  when the attribute is declared and not \<open>0\<close>.
\<close>

fun estimate_loop ::
  "(string \<Rightarrow> 'k option) \<Rightarrow> BuildComponent list \<Rightarrow> nat \<Rightarrow> ('k, 'f) database
     \<Rightarrow> (error + nat) \<times> ('k, 'f) database" where
  "estimate_loop ObjectId [] total_tdp s = (Inr total_tdp, s)"
| "estimate_loop ObjectId (bc # rest) total_tdp s =
     (case oid ObjectId (component_id bc) of
        Inl e \<Rightarrow> (Inl e, s)
      | Inr k \<Rightarrow>
          (case find_one k s of
             (comp', s') \<Rightarrow>
               estimate_loop ObjectId rest
                 (case comp' of
                    None \<Rightarrow> total_tdp
                  | Some c \<Rightarrow>
                      (case tdp c of
                         None \<Rightarrow> total_tdp
                       | Some t \<Rightarrow> if t \<noteq> 0 then total_tdp + t else total_tdp))
                 s'))"

definition estimate_wattage ::
  "(string \<Rightarrow> 'k option) \<Rightarrow> 'f Build \<Rightarrow> ('k, 'f) database
     \<Rightarrow> (error + nat) \<times> ('k, 'f) database" where
  "estimate_wattage ObjectId b s =
     (case estimate_loop ObjectId (components b) 0 s of
        (Inl e, s') \<Rightarrow> (Inl e, s')
      | (Inr total_tdp, s') \<Rightarrow>
          (if total_tdp \<noteq> 0 then int_mul_1_3 total_tdp else Inr 0, s'))"

section \<open>Strings\<close>

text \<open>\<open>str\<close> of a non-negative \<open>int\<close>, as an f-string formats it.\<close>

fun str_nat :: "nat \<Rightarrow> string" where
  "str_nat n =
     (if n < 10 then [''0123456789'' ! n]
      else str_nat (n div 10) @ [''0123456789'' ! (n mod 10)])"

declare str_nat.simps [simp del]

section \<open>Compatibility rules (main.py, compatibility\_issues)\<close>

text \<open>
  Truthiness of \<open>doc.get(attribute)\<close>: \<open>None\<close>, the empty string, \<open>0\<close> and the empty
  list are falsy.
\<close>

definition truthy_str :: "string option \<Rightarrow> bool" where
  "truthy_str v = (case v of None \<Rightarrow> False | Some x \<Rightarrow> x \<noteq> [])"

definition truthy_nat :: "nat option \<Rightarrow> bool" where
  "truthy_nat v = (case v of None \<Rightarrow> False | Some x \<Rightarrow> x \<noteq> 0)"

definition truthy_int :: "int option \<Rightarrow> bool" where
  "truthy_int v = (case v of None \<Rightarrow> False | Some x \<Rightarrow> x \<noteq> 0)"

definition truthy_list :: "string list option \<Rightarrow> bool" where
  "truthy_list v = (case v of None \<Rightarrow> False | Some x \<Rightarrow> x \<noteq> [])"

text \<open>
  The dict comprehension \<open>{bc.type: find_one(oid(bc.component_id)) for bc in ...}\<close>:
  a later reference of a role overwrites an earlier one, and the value of a role is
  \<open>None\<close> when the catalog has no entry.
\<close>

fun comps_loop ::
  "(string \<Rightarrow> 'k option) \<Rightarrow> BuildComponent list \<Rightarrow> (string \<rightharpoonup> 'f Component option)
     \<Rightarrow> ('k, 'f) database
     \<Rightarrow> (error + (string \<rightharpoonup> 'f Component option)) \<times> ('k, 'f) database" where
  "comps_loop ObjectId [] comps s = (Inr comps, s)"
| "comps_loop ObjectId (bc # rest) comps s =
     (case oid ObjectId (component_id bc) of
        Inl e \<Rightarrow> (Inl e, s)
      | Inr k \<Rightarrow>
          (case find_one k s of
             (doc, s') \<Rightarrow> comps_loop ObjectId rest (comps(BuildComponent.type bc \<mapsto> doc)) s'))"

text \<open>\<open>comps.get(role)\<close>.\<close>

definition comps_get ::
  "(string \<rightharpoonup> 'f Component option) \<Rightarrow> string \<Rightarrow> 'f Component option" where
  "comps_get comps role = (case comps role of None \<Rightarrow> None | Some doc \<Rightarrow> doc)"

text \<open>Each rule, as the list of messages it appends to \<open>issues\<close>.\<close>

definition socket_rule ::
  "(string \<Rightarrow> string) \<Rightarrow> 'f Component option \<Rightarrow> 'f Component option \<Rightarrow> string list" where
  "socket_rule lower cpu mobo =
     (case (cpu, mobo) of
        (Some c, Some m) \<Rightarrow>
          if truthy_str (socket c) \<and> truthy_str (socket m) then
            if lower (the (socket c)) \<noteq> lower (the (socket m)) then
              [''CPU socket '' @ the (socket c) @ '' not compatible with motherboard ''
                 @ the (socket m)]
            else []
          else []
      | _ \<Rightarrow> [])"

definition ram_rule ::
  "(string \<Rightarrow> string) \<Rightarrow> 'f Component option \<Rightarrow> 'f Component option \<Rightarrow> string list" where
  "ram_rule lower ram mobo =
     (case (ram, mobo) of
        (Some r, Some m) \<Rightarrow>
          if truthy_str (ram_type r) \<and> truthy_str (ram_type m) then
            if lower (the (ram_type r)) \<noteq> lower (the (ram_type m)) then
              [''RAM type '' @ the (ram_type r) @ '' not compatible with motherboard ''
                 @ the (ram_type m)]
            else []
          else []
      | _ \<Rightarrow> [])"

definition gpu_rule :: "'f Component option \<Rightarrow> 'f Component option \<Rightarrow> string list" where
  "gpu_rule gpu case' =
     (case (gpu, case') of
        (Some g, Some c) \<Rightarrow>
          if truthy_nat (gpu_length_mm g) \<and> truthy_nat (max_gpu_length_mm c) then
            if the (gpu_length_mm g) > the (max_gpu_length_mm c) then
              [''GPU length exceeds case maximum'']
            else []
          else []
      | _ \<Rightarrow> [])"

definition cooler_rule :: "'f Component option \<Rightarrow> 'f Component option \<Rightarrow> string list" where
  "cooler_rule cooler case' =
     (case (cooler, case') of
        (Some k, Some c) \<Rightarrow>
          if truthy_int (cooler_height_mm k) \<and> truthy_int (case_max_cooler_height_mm c) then
            if the (cooler_height_mm k) > the (case_max_cooler_height_mm c) then
              [''Cooler height exceeds case maximum'']
            else []
          else []
      | _ \<Rightarrow> [])"

definition psu_rule :: "'f Component option \<Rightarrow> nat \<Rightarrow> string list" where
  "psu_rule psu est_watts =
     (case psu of
        Some p \<Rightarrow>
          if truthy_nat (psu_wattage p) \<and> est_watts \<noteq> 0 then
            if the (psu_wattage p) < est_watts then
              [''PSU wattage too low. Estimated '' @ str_nat est_watts @ ''W, PSU is ''
                 @ str_nat (the (psu_wattage p)) @ ''W'']
            else []
          else []
      | None \<Rightarrow> [])"

definition psu_form_rule :: "'f Component option \<Rightarrow> 'f Component option \<Rightarrow> string list" where
  "psu_form_rule psu case' =
     (case (psu, case') of
        (Some p, Some c) \<Rightarrow>
          if truthy_str (psu_form_factor p) \<and> truthy_list (case_supported_psu c) then
            if the (psu_form_factor p) \<notin> set (the (case_supported_psu c)) then
              [''PSU form factor not supported by case'']
            else []
          else []
      | _ \<Rightarrow> [])"

definition mobo_form_rule :: "'f Component option \<Rightarrow> 'f Component option \<Rightarrow> string list" where
  "mobo_form_rule mobo case' =
     (case (mobo, case') of
        (Some m, Some c) \<Rightarrow>
          if truthy_str (motherboard_form_factor m) \<and> truthy_list (case_motherboard_support c)
          then
            if the (motherboard_form_factor m) \<notin> set (the (case_motherboard_support c)) then
              [''Motherboard form factor not supported by case'']
            else []
          else []
      | _ \<Rightarrow> [])"

text \<open>
  \<open>compatibility_issues\<close>: the mapping is resolved first, the first four rules append
  to \<open>issues\<close>, then \<open>estimate_wattage\<close> runs (its own lookups, its own errors), then
  the last three rules append.
\<close>

definition compatibility_issues ::
  "(string \<Rightarrow> 'k option) \<Rightarrow> (string \<Rightarrow> string) \<Rightarrow> 'f Build \<Rightarrow> ('k, 'f) database
     \<Rightarrow> (error + string list) \<times> ('k, 'f) database" where
  "compatibility_issues ObjectId lower b s =
     (case comps_loop ObjectId (components b) Map.empty s of
        (Inl e, s1) \<Rightarrow> (Inl e, s1)
      | (Inr comps, s1) \<Rightarrow>
          let cpu = comps_get comps ''cpu'';
              mobo = comps_get comps ''motherboard'';
              ram = comps_get comps ''ram'';
              gpu = comps_get comps ''gpu'';
              case' = comps_get comps ''case'';
              psu = comps_get comps ''psu'';
              cooler = comps_get comps ''cooler'';
              issues = [];
              issues = issues @ socket_rule lower cpu mobo;
              issues = issues @ ram_rule lower ram mobo;
              issues = issues @ gpu_rule gpu case';
              issues = issues @ cooler_rule cooler case'
          in (case estimate_wattage ObjectId b s1 of
                (Inl e, s2) \<Rightarrow> (Inl e, s2)
              | (Inr est_watts, s2) \<Rightarrow>
                  let issues = issues @ psu_rule psu est_watts;
                      issues = issues @ psu_form_rule psu case';
                      issues = issues @ mobo_form_rule mobo case'
                  in (Inr issues, s2)))"

section \<open>Build creation (main.py, create\_build)\<close>

text \<open>
  The pricing loop: a reference whose identifier has no catalog entry aborts with
  404; \<open>doc.get("price")\<close> is truthy when the price is declared and not \<open>0.0\<close>.
\<close>

fun price_loop ::
  "(string \<Rightarrow> 'k option) \<Rightarrow> BuildComponent list \<Rightarrow> 'f \<Rightarrow> ('k, 'f::{zero,plus}) database
     \<Rightarrow> (error + 'f) \<times> ('k, 'f) database" where
  "price_loop ObjectId [] total' s = (Inr total', s)"
| "price_loop ObjectId (bc # rest) total' s =
     (case oid ObjectId (component_id bc) of
        Inl e \<Rightarrow> (Inl e, s)
      | Inr k \<Rightarrow>
          (case find_one k s of
             (None, s') \<Rightarrow>
               (Inl (HTTPException 404 (Text (''Component not found: '' @ component_id bc))), s')
           | (Some doc, s') \<Rightarrow>
               price_loop ObjectId rest
                 (case price doc of
                    None \<Rightarrow> total'
                  | Some p \<Rightarrow> if p \<noteq> 0 then total' + p else total')
                 s'))"

text \<open>
  \<open>create_build\<close> returns the response \<open>(id, total_price)\<close>; the identifier that the
  store gives the inserted document is its position in the collection.
\<close>

definition create_build ::
  "(string \<Rightarrow> 'k option) \<Rightarrow> (string \<Rightarrow> string) \<Rightarrow> 'f Build
     \<Rightarrow> ('k, 'f::{zero,plus}) database
     \<Rightarrow> (error + nat \<times> 'f) \<times> ('k, 'f) database" where
  "create_build ObjectId lower b s =
     (case price_loop ObjectId (components b) 0 s of
        (Inl e, s1) \<Rightarrow> (Inl e, s1)
      | (Inr total', s1) \<Rightarrow>
          let bdict = b\<lparr>total_price := Some total'\<rparr> in
          (case compatibility_issues ObjectId lower b s1 of
             (Inl e, s2) \<Rightarrow> (Inl e, s2)
           | (Inr problems, s2) \<Rightarrow>
               if problems \<noteq> [] then (Inl (HTTPException 400 (Errors problems)), s2)
               else (Inr (length (build s2), total'), s2\<lparr>build := build s2 @ [bdict]\<rparr>)))"

section \<open>Notions used to state the properties\<close>

text \<open>An identifier is well-formed when \<open>ObjectId\<close> accepts it.\<close>

definition well_formed :: "(string \<Rightarrow> 'k option) \<Rightarrow> BuildComponent \<Rightarrow> bool" where
  "well_formed ObjectId bc = (ObjectId (component_id bc) \<noteq> None)"

text \<open>The catalog entry a reference resolves to, if any.\<close>

definition resolve ::
  "(string \<Rightarrow> 'k option) \<Rightarrow> ('k, 'f) database \<Rightarrow> BuildComponent \<Rightarrow> 'f Component option" where
  "resolve ObjectId s bc =
     (case ObjectId (component_id bc) of None \<Rightarrow> None | Some k \<Rightarrow> component s k)"

text \<open>The keys of the well-formed identifiers of a list of references, in order.\<close>

definition keys_of :: "(string \<Rightarrow> 'k option) \<Rightarrow> BuildComponent list \<Rightarrow> 'k list" where
  "keys_of ObjectId bcs = List.map_filter (\<lambda>bc. ObjectId (component_id bc)) bcs"

text \<open>The store after further lookups.\<close>

definition logged :: "('k, 'f) database \<Rightarrow> 'k list \<Rightarrow> ('k, 'f) database" where
  "logged s ks = s\<lparr>find_log := find_log s @ ks\<rparr>"

text \<open>The declared tdp of a resolved component; nothing declared counts as zero.\<close>

definition declared_tdp :: "'f Component option \<Rightarrow> nat" where
  "declared_tdp c = (case c of None \<Rightarrow> 0 | Some d \<Rightarrow> (case tdp d of None \<Rightarrow> 0 | Some t \<Rightarrow> t))"

definition tdp_sum ::
  "(string \<Rightarrow> 'k option) \<Rightarrow> ('k, 'f) database \<Rightarrow> BuildComponent list \<Rightarrow> nat" where
  "tdp_sum ObjectId s bcs = sum_list (map (\<lambda>bc. declared_tdp (resolve ObjectId s bc)) bcs)"

text \<open>The declared price of a resolved component; nothing declared counts as zero.\<close>

definition declared_price :: "'f Component option \<Rightarrow> 'f::zero" where
  "declared_price c =
     (case c of None \<Rightarrow> 0 | Some d \<Rightarrow> (case price d of None \<Rightarrow> 0 | Some p \<Rightarrow> p))"

definition price_sum ::
  "(string \<Rightarrow> 'k option) \<Rightarrow> ('k, 'f::{zero,plus}) database \<Rightarrow> BuildComponent list \<Rightarrow> 'f" where
  "price_sum ObjectId s bcs =
     foldl (+) 0 (map (\<lambda>bc. declared_price (resolve ObjectId s bc)) bcs)"

text \<open>
  The component that plays a role: the one the last reference with that role
  resolves to.
\<close>

definition role ::
  "(string \<Rightarrow> 'k option) \<Rightarrow> ('k, 'f) database \<Rightarrow> BuildComponent list \<Rightarrow> string
     \<Rightarrow> 'f Component option" where
  "role ObjectId s bcs r =
     (case filter (\<lambda>bc. BuildComponent.type bc = r) bcs of
        [] \<Rightarrow> None
      | x # xs \<Rightarrow> resolve ObjectId s (last (x # xs)))"

text \<open>The seven rules in their order, on the roles of a list of references.\<close>

definition all_rules ::
  "(string \<Rightarrow> 'k option) \<Rightarrow> (string \<Rightarrow> string) \<Rightarrow> ('k, 'f) database
     \<Rightarrow> BuildComponent list \<Rightarrow> nat \<Rightarrow> string list" where
  "all_rules ObjectId lower s bcs est_watts =
     socket_rule lower (role ObjectId s bcs ''cpu'') (role ObjectId s bcs ''motherboard'')
     @ ram_rule lower (role ObjectId s bcs ''ram'') (role ObjectId s bcs ''motherboard'')
     @ gpu_rule (role ObjectId s bcs ''gpu'') (role ObjectId s bcs ''case'')
     @ cooler_rule (role ObjectId s bcs ''cooler'') (role ObjectId s bcs ''case'')
     @ psu_rule (role ObjectId s bcs ''psu'') est_watts
     @ psu_form_rule (role ObjectId s bcs ''psu'') (role ObjectId s bcs ''case'')
     @ mobo_form_rule (role ObjectId s bcs ''motherboard'') (role ObjectId s bcs ''case'')"

text \<open>The two errors of reference resolution.\<close>

definition invalid_id :: error where
  "invalid_id = HTTPException 400 (Text ''Invalid id'')"

definition not_found :: "string \<Rightarrow> error" where
  "not_found cid = HTTPException 404 (Text (''Component not found: '' @ cid))"

text \<open>A component as \<open>Component(name=..., type=...)\<close> builds it: every optional attribute unset.\<close>

definition new_component :: "string \<Rightarrow> string \<Rightarrow> 'f Component" where
  "new_component n t =
     \<lparr>name = n, type = t, brand = None, model = None, socket = None, chipset = None,
      tdp = None, ram_type = None, ram_speed = None, ram_slots = None, pcie_version = None,
      gpu_length_mm = None, max_gpu_length_mm = None, psu_wattage = None,
      psu_form_factor = None, case_supported_psu = None, case_motherboard_support = None,
      motherboard_form_factor = None, cooler_height_mm = None,
      case_max_cooler_height_mm = None, storage_interface = None, m2_slots = None,
      price = None, image = None, url = None\<rparr>"

text \<open>What \<open>estimate_wattage\<close> returns, from the sum of the declared tdp values.\<close>

definition est_result :: "(string \<Rightarrow> 'k option) \<Rightarrow> ('k, 'f) database \<Rightarrow> BuildComponent list \<Rightarrow> error + nat" where
  "est_result ObjectId s bcs =
     (if tdp_sum ObjectId s bcs \<noteq> 0 then int_mul_1_3 (tdp_sum ObjectId s bcs) else Inr 0)"

text \<open>A reference is resolved when its identifier is well-formed and has a catalog entry.\<close>

definition resolved :: "(string \<Rightarrow> 'k option) \<Rightarrow> ('k, 'f) database \<Rightarrow> BuildComponent \<Rightarrow> bool" where
  "resolved ObjectId s bc = (resolve ObjectId s bc \<noteq> None)"

text \<open>The running total of the pricing loop over resolved references.\<close>

definition add_price :: "'f::{zero,plus} \<Rightarrow> 'f Component option \<Rightarrow> 'f" where
  "add_price t doc =
     (case doc of
        None \<Rightarrow> t
      | Some d \<Rightarrow> (case price d of None \<Rightarrow> t | Some p \<Rightarrow> if p \<noteq> 0 then t + p else t))"

fun price_total ::
  "(string \<Rightarrow> 'k option) \<Rightarrow> ('k, 'f::{zero,plus}) database \<Rightarrow> BuildComponent list \<Rightarrow> 'f \<Rightarrow> 'f" where
  "price_total ObjectId s [] t = t"
| "price_total ObjectId s (bc # bcs) t =
     price_total ObjectId s bcs (add_price t (resolve ObjectId s bc))"

text \<open>
  The roles each rule reads, as pairs of a role and the text that the messages of the
  rule start with.
\<close>

definition rule_needs :: "(string \<times> string) list" where
  "rule_needs =
     [(''cpu'', ''CPU socket ''), (''motherboard'', ''CPU socket ''),
      (''ram'', ''RAM type ''), (''motherboard'', ''RAM type ''),
      (''gpu'', ''GPU length''), (''case'', ''GPU length''),
      (''cooler'', ''Cooler height''), (''case'', ''Cooler height''),
      (''psu'', ''PSU wattage''),
      (''psu'', ''PSU form''), (''case'', ''PSU form''),
      (''motherboard'', ''Motherboard form''), (''case'', ''Motherboard form'')]"

section \<open>An example catalog\<close>

text \<open>
  Keys are natural numbers; the identifiers \<open>c1\<close> ... \<open>c22\<close> are well-formed, every
  other string is malformed. The keys 9 and 10 have no catalog entry.
\<close>

definition ex_ObjectId :: "string \<Rightarrow> nat option" where
  "ex_ObjectId =
     map_of [(''c1'', 1), (''c2'', 2), (''c3'', 3), (''c4'', 4), (''c5'', 5), (''c6'', 6),
             (''c7'', 7), (''c8'', 8), (''c9'', 9), (''c10'', 10), (''c11'', 11),
             (''c12'', 12), (''c13'', 13), (''c14'', 14), (''c15'', 15), (''c16'', 16),
             (''c17'', 17), (''c18'', 18), (''c19'', 19), (''c20'', 20), (''c21'', 21),
             (''c22'', 22)]"

definition ex_catalog :: "nat \<Rightarrow> real Component option" where
  "ex_catalog =
     map_of
       [(1, (new_component ''Ryzen'' ''cpu'')\<lparr>socket := Some ''AM5'', tdp := Some 100,
               price := Some 300\<rparr>),
        (2, (new_component ''B650'' ''motherboard'')\<lparr>socket := Some ''am5'',
               price := Some 200\<rparr>),
        (3, (new_component ''Z790'' ''motherboard'')\<lparr>socket := Some ''LGA1700''\<rparr>),
        (4, (new_component ''RTX'' ''gpu'')\<lparr>tdp := Some 150, gpu_length_mm := Some 350\<rparr>),
        (5, (new_component ''Tower'' ''case'')\<lparr>max_gpu_length_mm := Some 320\<rparr>),
        (6, (new_component ''PSU500'' ''psu'')\<lparr>psu_wattage := Some 500\<rparr>),
        (7, (new_component ''RX'' ''gpu'')\<lparr>tdp := Some 400, gpu_length_mm := Some 300\<rparr>),
        (8, (new_component ''PSU600'' ''psu'')\<lparr>psu_wattage := Some 600\<rparr>),
        (11, (new_component ''Slab'' ''case'')\<lparr>max_gpu_length_mm := Some 0\<rparr>),
        (12, (new_component ''PSU0'' ''psu'')\<lparr>psu_wattage := Some 0\<rparr>),
        (13, (new_component ''Blank'' ''cpu'')\<lparr>socket := Some []\<rparr>),
        (14, (new_component ''Furnace'' ''gpu'')\<lparr>tdp := Some 4611686018427387904\<rparr>),
        (15, (new_component ''Fan'' ''cooler'')),
        (16, (new_component ''Core'' ''cpu'')\<lparr>socket := Some ''LGA1700''\<rparr>),
        (17, (new_component ''Stick'' ''ram'')\<lparr>ram_type := Some ''DDR4''\<rparr>),
        (18, (new_component ''X670'' ''motherboard'')\<lparr>socket := Some ''AM5'',
               ram_type := Some ''DDR5'', motherboard_form_factor := Some ''E-ATX''\<rparr>),
        (19, (new_component ''Cube'' ''case'')\<lparr>max_gpu_length_mm := Some 320,
               case_supported_psu := Some [''ATX''],
               case_motherboard_support := Some [''ATX'', ''Micro-ATX''],
               case_max_cooler_height_mm := Some 150\<rparr>),
        (20, (new_component ''Spire'' ''cooler'')\<lparr>cooler_height_mm := Some 170\<rparr>),
        (21, (new_component ''Brick'' ''psu'')\<lparr>psu_wattage := Some 500,
               psu_form_factor := Some ''SFX''\<rparr>),
        (22, (new_component ''Titan'' ''gpu'')\<lparr>tdp := Some 400, gpu_length_mm := Some 350\<rparr>)]"

text \<open>
  The lowercasing of the examples: it folds the ASCII capitals, as \<open>str.lower\<close> does on
  the ASCII strings of the catalog.
\<close>

definition ex_lower_char :: "char \<Rightarrow> char" where
  "ex_lower_char c =
     (case map_of (zip ''ABCDEFGHIJKLMNOPQRSTUVWXYZ'' ''abcdefghijklmnopqrstuvwxyz'') c of
        Some l \<Rightarrow> l
      | None \<Rightarrow> c)"

definition ex_lower :: "string \<Rightarrow> string" where
  "ex_lower str = map ex_lower_char str"

definition ex_db :: "(nat, real) database" where
  "ex_db = \<lparr>component = ex_catalog, build = [], find_log = []\<rparr>"

definition ref :: "string \<Rightarrow> string \<Rightarrow> BuildComponent" where
  "ref cid t = \<lparr>component_id = cid, type = t\<rparr>"

definition ex_build :: "BuildComponent list \<Rightarrow> real Build" where
  "ex_build bcs =
     \<lparr>title = ''rig'', description = None, creator_id = None, is_anchor = False,
      components = bcs, total_price = None, likes = 0\<rparr>"

section \<open>The product with 1.3 in double precision\<close>

lemma bit_length_less: "n < 2 ^ bit_length n"
proof (induction n rule: bit_length.induct)
  case (1 n)
  show ?case
  proof (cases "n = 0")
    case True
    then show ?thesis by (simp add: bit_length.simps)
  next
    case False
    with 1 have "n div 2 < 2 ^ bit_length (n div 2)" by simp
    then have "n < 2 * 2 ^ bit_length (n div 2)" by linarith
    with False show ?thesis by (subst bit_length.simps) simp
  qed
qed

lemma bit_length_ge: "0 < n \<Longrightarrow> 2 ^ (bit_length n - 1) \<le> n"
proof (induction n rule: bit_length.induct)
  case (1 n)
  then have n: "n \<noteq> 0" by simp
  show ?case
  proof (cases "n div 2 = 0")
    case True
    with n have "n = 1" by linarith
    then show ?thesis by (simp add: bit_length.simps)
  next
    case False
    with 1 n have ih: "2 ^ (bit_length (n div 2) - 1) \<le> n div 2" by simp
    from False have "bit_length (n div 2) \<noteq> 0" by (subst bit_length.simps) simp
    then have "bit_length n - 1 = Suc (bit_length (n div 2) - 1)"
      using n by (subst bit_length.simps) simp
    with ih show ?thesis by simp
  qed
qed

lemma bit_length_le: "n < 2 ^ k \<Longrightarrow> bit_length n \<le> k"
proof (rule ccontr)
  assume lt: "n < 2 ^ k" and "\<not> bit_length n \<le> k"
  then have k: "k \<le> bit_length n - 1" by simp
  then have "0 < n" using \<open>\<not> bit_length n \<le> k\<close> by (cases "n = 0") (simp_all add: bit_length.simps)
  then have "2 ^ (bit_length n - 1) \<le> n" by (rule bit_length_ge)
  moreover have "(2::nat) ^ k \<le> 2 ^ (bit_length n - 1)" using k by (simp add: power_increasing)
  ultimately show False using lt by linarith
qed

lemma round53_small: "n < 2 ^ 53 \<Longrightarrow> round53 n = n"
  using bit_length_le [of n 53] by (simp add: round53_def)

lemma round53_bounds:
  assumes "53 < bit_length n"
  shows "(n div 2 ^ (bit_length n - 53)) * 2 ^ (bit_length n - 53) \<le> round53 n"
    and "round53 n \<le> (n div 2 ^ (bit_length n - 53)) * 2 ^ (bit_length n - 53) + 2 ^ (bit_length n - 53)"
  using assms by (simp_all add: round53_def Let_def)

text \<open>The arithmetic core, with the constants abstract.\<close>

lemma mul_1_3_core:
  fixes s M E N q p d :: nat
  assumes tenM: "10 * M = 13 * E + 2"
    and N: "N = s * M"
    and q: "q = 13 * s div 10"
    and small: "15 * s < E"
    and dpos: "0 < d"
    and dE: "d * E \<le> N"
    and Ed: "E = c * d"
    and lo: "(N div d) * d \<le> p"
    and hi: "p \<le> (N div d) * d + d"
  shows "q * E \<le> p \<and> p < (q + 1) * E"
proof -
  have tenN: "10 * N = 13 * s * E + 2 * s"
  proof -
    have "10 * N = s * (10 * M)" by (simp add: N)
    also have "\<dots> = s * (13 * E + 2)" by (simp only: tenM)
    also have "\<dots> = 13 * s * E + 2 * s" by (simp add: algebra_simps)
    finally show ?thesis .
  qed
  have q1: "10 * q \<le> 13 * s" and q2: "13 * s \<le> 10 * q + 9"
    unfolding q by presburger+
  have "(10 * q) * E \<le> (13 * s) * E" using q1 by (rule mult_le_mono1)
  then have "10 * (q * E) \<le> 13 * s * E" by (simp only: mult.assoc)
  then have lowN: "q * E \<le> N" using tenN by linarith
  have qE: "q * E = (q * c) * d" by (simp add: Ed mult.assoc)
  have "(q * c) * d \<le> N" using lowN unfolding qE .
  then have "q * c \<le> N div d" using dpos by (simp only: less_eq_div_iff_mult_less_eq)
  then have "(q * c) * d \<le> (N div d) * d" by (rule mult_le_mono1)
  then have lower_bound: "q * E \<le> p" using lo unfolding qE by (rule le_trans)
  have "10 * (d * E) \<le> 13 * s * E + 2 * s" using dE tenN by linarith
  also have "\<dots> < 13 * s * E + E" using small by simp
  also have "\<dots> = (13 * s + 1) * E" by (simp add: algebra_simps)
  finally have "(10 * d) * E < (13 * s + 1) * E" by (simp add: mult.assoc)
  then have "10 * d < 13 * s + 1" by (rule mult_less_cancel2 [THEN iffD1, THEN conjunct2])
  then have d13: "10 * d \<le> 13 * s" by simp
  have "(N div d) * d \<le> N" by simp
  with hi have "p \<le> N + d" by linarith
  then have "10 * p \<le> 10 * N + 10 * d" by linarith
  also have "\<dots> \<le> 13 * s * E + 2 * s + 13 * s" using tenN d13 by linarith
  also have "\<dots> \<le> (10 * q + 9) * E + 15 * s"
  proof -
    have "13 * s * E \<le> (10 * q + 9) * E" using q2 by (rule mult_le_mono1)
    then show ?thesis by linarith
  qed
  also have "\<dots> < (10 * q + 9) * E + E" using small by simp
  also have "\<dots> = 10 * ((q + 1) * E)" by (simp add: algebra_simps)
  finally have "p < (q + 1) * E" by simp
  with lower_bound show ?thesis by simp
qed

lemma bit_length_0: "bit_length 0 = 0"
  by (simp add: bit_length.simps)

lemma ten_times_1_3: "10 * (5854679515581645::nat) = 13 * 2 ^ 52 + 2"
  by simp


lemma window_small:
  fixes s N :: nat
  assumes s: "s < 2 ^ 48" and s0: "0 < s" and N: "N = s * 5854679515581645"
    and k: "bit_length N \<le> 53"
  shows "13 * s div 10 * 2 ^ 52 \<le> round53 N \<and> round53 N < (13 * s div 10 + 1) * 2 ^ 52"
proof -
  have p: "round53 N = N" using k by (simp add: round53_def)
  have small: "15 * s < 2 ^ 52" using s by simp
  have "1 * 5854679515581645 \<le> s * (5854679515581645::nat)"
    using s0 by (intro mult_le_mono1) simp
  then have dE: "1 * 2 ^ 52 \<le> N" unfolding N by simp
  have "13 * s div 10 * 2 ^ 52 \<le> N \<and> N < (13 * s div 10 + 1) * 2 ^ 52"
    by (rule mul_1_3_core [where M = 5854679515581645 and N = N and s = s and d = 1
          and c = "2 ^ 52" and E = "2 ^ 52", OF ten_times_1_3 N refl small _ dE]) simp_all
  then show ?thesis unfolding p .
qed

lemma shift_scale:
  fixes N sh E :: nat
  assumes "2 ^ (bit_length N - 1) \<le> N" "bit_length N - 1 = sh + 52" "E = 2 ^ 52"
  shows "2 ^ sh * E \<le> N"
  using assms by (simp add: power_add)

lemma pow52_split:
  fixes sh E :: nat
  assumes "sh \<le> 52" "E = 2 ^ 52"
  shows "E = 2 ^ (52 - sh) * 2 ^ sh"
  using assms by (simp flip: power_add)

lemma window_large:
  fixes s N :: nat
  assumes s: "s < 2 ^ 48" and N: "N = s * 5854679515581645"
    and k: "53 < bit_length N"
  shows "13 * s div 10 * 2 ^ 52 \<le> round53 N \<and> round53 N < (13 * s div 10 + 1) * 2 ^ 52"
proof -
  define sh where "sh = bit_length N - 53"
  have small: "15 * s < 2 ^ 52" using s by simp
  have Npos: "0 < N" using k by (cases "N = 0") (simp_all add: bit_length_0)
  have b1: "2 ^ (bit_length N - 1) \<le> N" using Npos by (rule bit_length_ge)
  have b2: "bit_length N - 1 = sh + 52" using k by (simp add: sh_def)
  have dE: "2 ^ sh * 2 ^ 52 \<le> N" by (rule shift_scale [OF b1 b2 refl])
  have "s * 5854679515581645 < 2 ^ 48 * 2 ^ 53"
    using s by (intro mult_strict_mono) simp_all
  then have "N < 2 ^ 101" unfolding N by simp
  then have "bit_length N \<le> 101" by (rule bit_length_le)
  then have sh52: "sh \<le> 52" by (simp add: sh_def)
  then have Ed: "2 ^ 52 = 2 ^ (52 - sh) * (2::nat) ^ sh" by (rule pow52_split) (rule refl)
  have lo: "N div 2 ^ sh * 2 ^ sh \<le> round53 N"
    using round53_bounds(1) [OF k] by (simp only: sh_def)
  have hi: "round53 N \<le> N div 2 ^ sh * 2 ^ sh + 2 ^ sh"
    using round53_bounds(2) [OF k] by (simp only: sh_def)
  have dpos: "0 < (2::nat) ^ sh" by simp
  show ?thesis
    by (rule mul_1_3_core [where M = 5854679515581645 and N = N and s = s,
          OF ten_times_1_3 N refl small dpos dE Ed lo hi])
qed

lemma round53_0: "round53 0 = 0"
  by (simp add: round53_def bit_length_0)

lemma int_mul_1_3_0: "int_mul_1_3 0 = Inr 0"
  by (simp add: int_mul_1_3_def round53_0)

lemma no_overflow:
  fixes p q s :: nat
  assumes "p < (q + 1) * 2 ^ 52" and "q \<le> 13 * s" and "s < 2 ^ 48"
  shows "p < 2 ^ 1076"
proof -
  have "q + 1 \<le> 2 ^ 52" using assms(2,3) by simp
  then have "(q + 1) * 2 ^ 52 \<le> 2 ^ 52 * 2 ^ 52" by (rule mult_le_mono1)
  also have "\<dots> = (2::nat) ^ (52 + 52)" by (rule power_add [symmetric])
  also have "\<dots> \<le> (2::nat) ^ 1076" by (rule power_increasing) simp_all
  finally have "(q + 1) * 2 ^ 52 \<le> 2 ^ 1076" .
  with assms(1) show ?thesis by (rule less_le_trans)
qed

lemma int_mul_1_3_exact:
  assumes s: "s < 2 ^ 48"
  shows "int_mul_1_3 s = Inr (13 * s div 10)"
proof (cases "s = 0")
  case True
  then show ?thesis by (simp add: int_mul_1_3_0)
next
  case False
  then have s0: "0 < s" by simp
  define p where "p = round53 (s * 5854679515581645)"
  define q where "q = 13 * s div 10"
  have "q * 2 ^ 52 \<le> p \<and> p < (q + 1) * 2 ^ 52"
    unfolding p_def q_def
  proof (cases "bit_length (s * 5854679515581645) \<le> 53")
    case True
    then show "13 * s div 10 * 2 ^ 52 \<le> round53 (s * 5854679515581645)
      \<and> round53 (s * 5854679515581645) < (13 * s div 10 + 1) * 2 ^ 52"
      by (rule window_small [OF s s0 refl])
  next
    case False
    then have "53 < bit_length (s * 5854679515581645)" by simp
    then show "13 * s div 10 * 2 ^ 52 \<le> round53 (s * 5854679515581645)
      \<and> round53 (s * 5854679515581645) < (13 * s div 10 + 1) * 2 ^ 52"
      by (rule window_large [OF s refl])
  qed
  then have w1: "q * 2 ^ 52 \<le> p" and w2: "p < (q + 1) * 2 ^ 52" by blast+
  have "(2::nat) ^ 48 \<le> 2 ^ 53" by (rule power_increasing) simp_all
  with s have "s < 2 ^ 53" by (rule less_le_trans)
  then have a: "round53 s = s" by (rule round53_small)
  have divq: "p div 2 ^ 52 = q"
  proof (rule div_nat_eqI)
    show "2 ^ 52 * q \<le> p" using w1 by (simp only: mult.commute)
    show "p < 2 ^ 52 * Suc q" using w2 by (simp only: Suc_eq_plus1 mult.commute)
  qed
  have "q \<le> 13 * s" unfolding q_def by simp
  with w2 have pub: "p < 2 ^ 1076" using s by (rule no_overflow)
  have "(2::nat) ^ 48 \<le> 2 ^ 1024" by (rule power_increasing) simp_all
  with s have "s < (2::nat) ^ 1024" by (rule less_le_trans)
  then have n1: "\<not> 2 ^ 1024 \<le> round53 s" by (simp only: a not_le)
  have n2: "\<not> 2 ^ 1076 \<le> p" using pub by (simp only: not_le)
  show ?thesis
    unfolding int_mul_1_3_def Let_def
    using n1 n2 divq by (simp only: a p_def [symmetric] if_False q_def)
qed

section \<open>Reference resolution and the store log\<close>

lemma logged_simps [simp]:
  "component (logged s ks) = component s"
  "build (logged s ks) = build s"
  "find_log (logged s ks) = find_log s @ ks"
  "logged (logged s ks) ks' = logged s (ks @ ks')"
  "logged s [] = s"
  by (simp_all add: logged_def)

lemma find_one_logged: "find_one k s = (component s k, logged s [k])"
  by (simp add: find_one_def logged_def)

lemma resolve_logged [simp]: "resolve ObjectId (logged s ks) bc = resolve ObjectId s bc"
  by (simp add: resolve_def split: option.splits)

lemma keys_of_simps [simp]:
  "keys_of ObjectId [] = []"
  "ObjectId (component_id bc) = Some k \<Longrightarrow> keys_of ObjectId (bc # bcs) = k # keys_of ObjectId bcs"
  "ObjectId (component_id bc) = None \<Longrightarrow> keys_of ObjectId (bc # bcs) = keys_of ObjectId bcs"
  by (simp_all add: keys_of_def map_filter_simps)


lemma estimate_loop_ok:
  "list_all (well_formed ObjectId) bcs \<Longrightarrow>
   estimate_loop ObjectId bcs acc s =
     (Inr (acc + tdp_sum ObjectId s bcs), logged s (keys_of ObjectId bcs))"
proof (induction bcs arbitrary: acc s)
  case Nil
  then show ?case by (simp add: tdp_sum_def)
next
  case (Cons bc bcs)
  then obtain k where k: "ObjectId (component_id bc) = Some k"
    by (auto simp: well_formed_def)
  from Cons.prems have rest: "list_all (well_formed ObjectId) bcs" by simp
  have tdp: "tdp_sum ObjectId s (bc # bcs) = declared_tdp (component s k) + tdp_sum ObjectId s bcs"
    using k by (simp add: tdp_sum_def resolve_def)
  have same: "tdp_sum ObjectId (logged s [k]) bcs = tdp_sum ObjectId s bcs"
    by (simp add: tdp_sum_def)
  show ?case
    using k by (simp add: oid_def find_one_logged Cons.IH [OF rest] tdp same declared_tdp_def
        split: option.splits)
qed

lemma estimate_loop_bad:
  "list_all (well_formed ObjectId) pre \<Longrightarrow> \<not> well_formed ObjectId bc \<Longrightarrow>
   estimate_loop ObjectId (pre @ bc # post) acc s =
     (Inl invalid_id, logged s (keys_of ObjectId pre))"
proof (induction pre arbitrary: acc s)
  case Nil
  then show ?case by (simp add: oid_def well_formed_def invalid_id_def)
next
  case (Cons x pre)
  then obtain k where k: "ObjectId (component_id x) = Some k"
    by (auto simp: well_formed_def)
  from Cons.prems have rest: "list_all (well_formed ObjectId) pre" by simp
  show ?case
    using k by (simp add: oid_def find_one_logged Cons.IH [OF rest Cons.prems(2)])
qed

section \<open>Wattage estimation\<close>

lemma split_first_malformed:
  assumes "\<not> list_all (well_formed ObjectId) bcs"
  obtains pre bc post where "bcs = pre @ bc # post"
    "list_all (well_formed ObjectId) pre" "\<not> well_formed ObjectId bc"
proof -
  from assms have "\<exists>x\<in>set bcs. \<not> well_formed ObjectId x" by (simp add: list_all_iff)
  then obtain pre bc post where "bcs = pre @ bc # post" "\<not> well_formed ObjectId bc"
    "\<forall>y\<in>set pre. \<not> \<not> well_formed ObjectId y"
    by (auto dest!: split_list_first_prop)
  then show ?thesis using that by (auto simp: list_all_iff)
qed

lemma estimate_wattage_ok:
  assumes "list_all (well_formed ObjectId) (components b)"
  shows "estimate_wattage ObjectId b s =
    (if tdp_sum ObjectId s (components b) \<noteq> 0
     then int_mul_1_3 (tdp_sum ObjectId s (components b)) else Inr 0,
     logged s (keys_of ObjectId (components b)))"
  by (simp add: estimate_wattage_def estimate_loop_ok [OF assms])

lemma estimate_wattage_bad:
  assumes "components b = pre @ bc # post" "list_all (well_formed ObjectId) pre"
    "\<not> well_formed ObjectId bc"
  shows "estimate_wattage ObjectId b s = (Inl invalid_id, logged s (keys_of ObjectId pre))"
  by (simp add: estimate_wattage_def assms(1) estimate_loop_bad [OF assms(2,3)])

lemma tdp_sum_0:
  assumes "\<forall>bc\<in>set bcs. \<forall>c. resolve ObjectId s bc = Some c \<longrightarrow> tdp c = None"
  shows "tdp_sum ObjectId s bcs = 0"
  using assms by (induction bcs) (auto simp: tdp_sum_def declared_tdp_def split: option.splits)

text \<open>
  Claim C1 (amended). When every identifier of the build is well-formed,
  \<open>estimate_wattage\<close> returns 0 if no resolved component declares a tdp, and, if the sum
  of the declared tdp values is below \<open>2 ^ 48\<close>, it returns the truncation of 1.3 times
  that sum (a component without a declared tdp contributes zero). For larger sums the
  product in double precision may differ from the exact one.
\<close>

theorem estimate_wattage_value:
  assumes "list_all (well_formed ObjectId) (components b)"
  shows "((\<forall>bc\<in>set (components b). \<forall>c. resolve ObjectId s bc = Some c \<longrightarrow> tdp c = None)
            \<longrightarrow> fst (estimate_wattage ObjectId b s) = Inr 0)
       \<and> (tdp_sum ObjectId s (components b) < 2 ^ 48
            \<longrightarrow> fst (estimate_wattage ObjectId b s)
                = Inr (13 * tdp_sum ObjectId s (components b) div 10))"
proof (intro conjI impI)
  assume "\<forall>bc\<in>set (components b). \<forall>c. resolve ObjectId s bc = Some c \<longrightarrow> tdp c = None"
  then have "tdp_sum ObjectId s (components b) = 0" by (rule tdp_sum_0)
  then show "fst (estimate_wattage ObjectId b s) = Inr 0"
    by (simp add: estimate_wattage_ok [OF assms])
next
  assume small: "tdp_sum ObjectId s (components b) < 2 ^ 48"
  show "fst (estimate_wattage ObjectId b s) = Inr (13 * tdp_sum ObjectId s (components b) div 10)"
    by (simp add: estimate_wattage_ok [OF assms] int_mul_1_3_exact [OF small])
qed

lemmas ex_defs = ex_ObjectId_def ex_catalog_def ex_db_def ref_def ex_build_def
  new_component_def well_formed_def resolve_def tdp_sum_def declared_tdp_def

theorem estimate_wattage_value_witness:
  "list_all (well_formed ex_ObjectId) (components (ex_build [ref ''c1'' ''cpu'', ref ''c4'' ''gpu'']))
   \<and> tdp_sum ex_ObjectId ex_db (components (ex_build [ref ''c1'' ''cpu'', ref ''c4'' ''gpu''])) = 100 + 150
   \<and> fst (estimate_wattage ex_ObjectId (ex_build [ref ''c1'' ''cpu'', ref ''c4'' ''gpu'']) ex_db) = Inr 325
   \<and> fst (estimate_wattage ex_ObjectId (ex_build [ref ''c2'' ''motherboard'', ref ''c9'' ''ram'']) ex_db) = Inr 0"
  using estimate_wattage_value [of ex_ObjectId "ex_build [ref ''c1'' ''cpu'', ref ''c4'' ''gpu'']" ex_db]
    estimate_wattage_value [of ex_ObjectId "ex_build [ref ''c2'' ''motherboard'', ref ''c9'' ''ram'']" ex_db]
  by (simp add: ex_defs)

text \<open>A single component with a tdp of \<open>2 ^ 62\<close>: the double product is not the exact one.\<close>

theorem estimate_wattage_large_counterexample:
  "tdp_sum ex_ObjectId ex_db (components (ex_build [ref ''c14'' ''gpu''])) = 4611686018427387904
   \<and> fst (estimate_wattage ex_ObjectId (ex_build [ref ''c14'' ''gpu'']) ex_db)
     = Inr 5995191823955604480
   \<and> 13 * 4611686018427387904 div 10 = (5995191823955604275 :: nat)"
  by (simp add: ex_defs estimate_wattage_def oid_def find_one_def
      int_mul_1_3_def round53_def bit_length.simps Let_def)

section \<open>The mapping from roles to components\<close>

lemma comps_loop_bad:
  "list_all (well_formed ObjectId) pre \<Longrightarrow> \<not> well_formed ObjectId bc \<Longrightarrow>
   comps_loop ObjectId (pre @ bc # post) m s =
     (Inl invalid_id, logged s (keys_of ObjectId pre))"
proof (induction pre arbitrary: m s)
  case Nil
  then show ?case by (simp add: oid_def well_formed_def invalid_id_def)
next
  case (Cons x pre)
  then obtain k where k: "ObjectId (component_id x) = Some k"
    by (auto simp: well_formed_def)
  from Cons.prems have rest: "list_all (well_formed ObjectId) pre" by simp
  show ?case
    using k by (simp add: oid_def find_one_logged Cons.IH [OF rest Cons.prems(2)])
qed

lemma role_Nil [simp]: "role ObjectId s [] r = None"
  by (simp add: role_def)

lemma role_alt:
  "role ObjectId s bcs r =
     (if filter (\<lambda>bc. BuildComponent.type bc = r) bcs = [] then None
      else resolve ObjectId s (last (filter (\<lambda>bc. BuildComponent.type bc = r) bcs)))"
  by (simp add: role_def split: list.splits)

lemma role_snoc:
  "role ObjectId s (bcs @ [bc]) r =
     (if BuildComponent.type bc = r then resolve ObjectId s bc else role ObjectId s bcs r)"
  by (simp add: role_alt)

lemma comps_get_upd:
  "comps_get (m(t \<mapsto> d)) r = (if t = r then d else comps_get m r)"
  by (simp add: comps_get_def)

lemma role_logged [simp]: "role ObjectId (logged s ks) bcs r = role ObjectId s bcs r"
  by (simp add: role_alt)

lemma role_Cons:
  "role ObjectId s (bc # bcs) r =
     (if \<exists>x\<in>set bcs. BuildComponent.type x = r then role ObjectId s bcs r
      else if BuildComponent.type bc = r then resolve ObjectId s bc else None)"
  by (auto simp: role_alt filter_empty_conv)

lemma comps_loop_ok:
  "list_all (well_formed ObjectId) bcs \<Longrightarrow>
   \<exists>m'. comps_loop ObjectId bcs m s = (Inr m', logged s (keys_of ObjectId bcs))
      \<and> (\<forall>r. comps_get m' r =
             (if \<exists>x\<in>set bcs. BuildComponent.type x = r then role ObjectId s bcs r
              else comps_get m r))"
proof (induction bcs arbitrary: m s)
  case Nil
  then show ?case by simp
next
  case (Cons bc bcs)
  then obtain k where k: "ObjectId (component_id bc) = Some k"
    by (auto simp: well_formed_def)
  from Cons.prems have rest: "list_all (well_formed ObjectId) bcs" by simp
  have r: "component s k = resolve ObjectId s bc" using k by (simp add: resolve_def)
  from Cons.IH [OF rest, of "m(BuildComponent.type bc \<mapsto> component s k)" "logged s [k]"]
  obtain m' where
    loop: "comps_loop ObjectId bcs (m(BuildComponent.type bc \<mapsto> component s k)) (logged s [k])
             = (Inr m', logged (logged s [k]) (keys_of ObjectId bcs))"
    and get: "\<And>r. comps_get m' r =
             (if \<exists>x\<in>set bcs. BuildComponent.type x = r then role ObjectId (logged s [k]) bcs r
              else comps_get (m(BuildComponent.type bc \<mapsto> component s k)) r)"
    by blast
  have "comps_loop ObjectId (bc # bcs) m s = (Inr m', logged s (keys_of ObjectId (bc # bcs)))"
    using k loop by (simp add: oid_def find_one_logged)
  moreover have "\<forall>r. comps_get m' r =
             (if \<exists>x\<in>set (bc # bcs). BuildComponent.type x = r then role ObjectId s (bc # bcs) r
              else comps_get m r)"
    by (auto simp: get role_Cons comps_get_upd r)
  ultimately show ?case by blast
qed

lemma comps_loop_empty:
  assumes "list_all (well_formed ObjectId) bcs"
  obtains m' where "comps_loop ObjectId bcs Map.empty s = (Inr m', logged s (keys_of ObjectId bcs))"
    and "\<And>r. comps_get m' r = role ObjectId s bcs r"
proof -
  from comps_loop_ok [OF assms, of Map.empty s] obtain m' where
    1: "comps_loop ObjectId bcs Map.empty s = (Inr m', logged s (keys_of ObjectId bcs))"
    and 2: "\<And>r. comps_get m' r =
             (if \<exists>x\<in>set bcs. BuildComponent.type x = r then role ObjectId s bcs r
              else comps_get Map.empty r)"
    by blast
  have "comps_get m' r = role ObjectId s bcs r" for r
  proof (cases "\<exists>x\<in>set bcs. BuildComponent.type x = r")
    case True
    then show ?thesis by (simp add: 2)
  next
    case False
    then have "role ObjectId s bcs r = None" by (simp add: role_alt filter_empty_conv)
    moreover have "comps_get m' r = comps_get Map.empty r" using False by (simp add: 2)
    moreover have "comps_get Map.empty r = None" by (simp add: comps_get_def)
    ultimately show ?thesis by simp
  qed
  with 1 show ?thesis by (rule that)
qed

lemma tdp_sum_logged [simp]: "tdp_sum ObjectId (logged s ks) bcs = tdp_sum ObjectId s bcs"
  by (simp add: tdp_sum_def)

lemma all_rules_logged [simp]:
  "all_rules ObjectId lower (logged s ks) bcs est = all_rules ObjectId lower s bcs est"
  by (simp add: all_rules_def)

section \<open>The result of the compatibility check\<close>

lemma compat_ok:
  assumes wf: "list_all (well_formed ObjectId) (components b)"
  shows "compatibility_issues ObjectId lower b s =
    (case est_result ObjectId s (components b) of
       Inl e \<Rightarrow> Inl e
     | Inr est \<Rightarrow> Inr (all_rules ObjectId lower s (components b) est),
     logged s (keys_of ObjectId (components b) @ keys_of ObjectId (components b)))"
proof -
  obtain m' where
    loop: "comps_loop ObjectId (components b) Map.empty s
             = (Inr m', logged s (keys_of ObjectId (components b)))"
    and get: "\<And>r. comps_get m' r = role ObjectId s (components b) r"
    using comps_loop_empty [OF wf] by blast
  show ?thesis
    unfolding compatibility_issues_def loop
    by (simp add: get estimate_wattage_ok [OF wf] all_rules_def est_result_def Let_def
        split: sum.splits)
qed

lemma compat_bad:
  assumes "components b = pre @ bc # post" "list_all (well_formed ObjectId) pre"
    "\<not> well_formed ObjectId bc"
  shows "compatibility_issues ObjectId lower b s = (Inl invalid_id, logged s (keys_of ObjectId pre))"
  by (simp add: compatibility_issues_def assms(1) comps_loop_bad [OF assms(2,3)])

lemma estimate_Inr_wf:
  assumes "fst (estimate_wattage ObjectId b s) = Inr est"
  shows "list_all (well_formed ObjectId) (components b)"
proof (rule ccontr)
  assume "\<not> list_all (well_formed ObjectId) (components b)"
  then obtain pre bc post where "components b = pre @ bc # post"
    "list_all (well_formed ObjectId) pre" "\<not> well_formed ObjectId bc"
    by (rule split_first_malformed)
  then have "fst (estimate_wattage ObjectId b s) = Inl invalid_id"
    by (simp add: estimate_wattage_bad)
  with assms show False by simp
qed

lemma compat_of_estimate:
  assumes "fst (estimate_wattage ObjectId b s) = Inr est"
  shows "fst (compatibility_issues ObjectId lower b s) = Inr (all_rules ObjectId lower s (components b) est)"
proof -
  have wf: "list_all (well_formed ObjectId) (components b)"
    using assms by (rule estimate_Inr_wf)
  from assms have "est_result ObjectId s (components b) = Inr est"
    by (simp add: estimate_wattage_ok [OF wf] est_result_def)
  then show ?thesis by (simp add: compat_ok [OF wf])
qed

lemma compat_Inr:
  assumes "fst (compatibility_issues ObjectId lower b s) = Inr issues"
  obtains est where "fst (estimate_wattage ObjectId b s) = Inr est"
    and "issues = all_rules ObjectId lower s (components b) est"
proof -
  have wf: "list_all (well_formed ObjectId) (components b)"
  proof (rule ccontr)
    assume "\<not> list_all (well_formed ObjectId) (components b)"
    then obtain pre bc post where "components b = pre @ bc # post"
      "list_all (well_formed ObjectId) pre" "\<not> well_formed ObjectId bc"
      by (rule split_first_malformed)
    then have "fst (compatibility_issues ObjectId lower b s) = Inl invalid_id"
      by (simp add: compat_bad)
    with assms show False by simp
  qed
  from assms obtain est where "est_result ObjectId s (components b) = Inr est"
    and "issues = all_rules ObjectId lower s (components b) est"
    by (auto simp: compat_ok [OF wf] split: sum.splits)
  then show ?thesis
    by (intro that [of est]) (simp_all add: estimate_wattage_ok [OF wf] est_result_def)
qed

lemma filter_socket_rule:
  "filter (prefix ''CPU socket '') (socket_rule lower a b) = socket_rule lower a b"
  "filter (prefix ''RAM type '') (socket_rule lower a b) = []"
  "filter (prefix ''GPU length'') (socket_rule lower a b) = []"
  "filter (prefix ''Cooler height'') (socket_rule lower a b) = []"
  "filter (prefix ''PSU wattage'') (socket_rule lower a b) = []"
  "filter (prefix ''PSU form'') (socket_rule lower a b) = []"
  "filter (prefix ''Motherboard form'') (socket_rule lower a b) = []"
  by (simp_all add: socket_rule_def split: option.splits)

lemma filter_ram_rule:
  "filter (prefix ''CPU socket '') (ram_rule lower a b) = []"
  "filter (prefix ''RAM type '') (ram_rule lower a b) = ram_rule lower a b"
  "filter (prefix ''GPU length'') (ram_rule lower a b) = []"
  "filter (prefix ''Cooler height'') (ram_rule lower a b) = []"
  "filter (prefix ''PSU wattage'') (ram_rule lower a b) = []"
  "filter (prefix ''PSU form'') (ram_rule lower a b) = []"
  "filter (prefix ''Motherboard form'') (ram_rule lower a b) = []"
  by (simp_all add: ram_rule_def split: option.splits)

lemma filter_gpu_rule:
  "filter (prefix ''CPU socket '') (gpu_rule a b) = []"
  "filter (prefix ''RAM type '') (gpu_rule a b) = []"
  "filter (prefix ''GPU length'') (gpu_rule a b) = gpu_rule a b"
  "filter (prefix ''Cooler height'') (gpu_rule a b) = []"
  "filter (prefix ''PSU wattage'') (gpu_rule a b) = []"
  "filter (prefix ''PSU form'') (gpu_rule a b) = []"
  "filter (prefix ''Motherboard form'') (gpu_rule a b) = []"
  by (simp_all add: gpu_rule_def split: option.splits)

lemma filter_cooler_rule:
  "filter (prefix ''CPU socket '') (cooler_rule a b) = []"
  "filter (prefix ''RAM type '') (cooler_rule a b) = []"
  "filter (prefix ''GPU length'') (cooler_rule a b) = []"
  "filter (prefix ''Cooler height'') (cooler_rule a b) = cooler_rule a b"
  "filter (prefix ''PSU wattage'') (cooler_rule a b) = []"
  "filter (prefix ''PSU form'') (cooler_rule a b) = []"
  "filter (prefix ''Motherboard form'') (cooler_rule a b) = []"
  by (simp_all add: cooler_rule_def split: option.splits)

lemma filter_psu_rule:
  "filter (prefix ''CPU socket '') (psu_rule a n) = []"
  "filter (prefix ''RAM type '') (psu_rule a n) = []"
  "filter (prefix ''GPU length'') (psu_rule a n) = []"
  "filter (prefix ''Cooler height'') (psu_rule a n) = []"
  "filter (prefix ''PSU wattage'') (psu_rule a n) = psu_rule a n"
  "filter (prefix ''PSU form'') (psu_rule a n) = []"
  "filter (prefix ''Motherboard form'') (psu_rule a n) = []"
  by (simp_all add: psu_rule_def split: option.splits)

lemma filter_psu_form_rule:
  "filter (prefix ''CPU socket '') (psu_form_rule a b) = []"
  "filter (prefix ''RAM type '') (psu_form_rule a b) = []"
  "filter (prefix ''GPU length'') (psu_form_rule a b) = []"
  "filter (prefix ''Cooler height'') (psu_form_rule a b) = []"
  "filter (prefix ''PSU wattage'') (psu_form_rule a b) = []"
  "filter (prefix ''PSU form'') (psu_form_rule a b) = psu_form_rule a b"
  "filter (prefix ''Motherboard form'') (psu_form_rule a b) = []"
  by (simp_all add: psu_form_rule_def split: option.splits)

lemma filter_mobo_form_rule:
  "filter (prefix ''CPU socket '') (mobo_form_rule a b) = []"
  "filter (prefix ''RAM type '') (mobo_form_rule a b) = []"
  "filter (prefix ''GPU length'') (mobo_form_rule a b) = []"
  "filter (prefix ''Cooler height'') (mobo_form_rule a b) = []"
  "filter (prefix ''PSU wattage'') (mobo_form_rule a b) = []"
  "filter (prefix ''PSU form'') (mobo_form_rule a b) = []"
  "filter (prefix ''Motherboard form'') (mobo_form_rule a b) = mobo_form_rule a b"
  by (simp_all add: mobo_form_rule_def split: option.splits)

lemmas filter_rules = filter_socket_rule filter_ram_rule filter_gpu_rule filter_cooler_rule filter_psu_rule filter_psu_form_rule filter_mobo_form_rule

lemma filter_all_rules:
  "filter (prefix ''CPU socket '') (all_rules ObjectId lower s bcs est) =
     socket_rule lower (role ObjectId s bcs ''cpu'') (role ObjectId s bcs ''motherboard'')"
  "filter (prefix ''RAM type '') (all_rules ObjectId lower s bcs est) =
     ram_rule lower (role ObjectId s bcs ''ram'') (role ObjectId s bcs ''motherboard'')"
  "filter (prefix ''GPU length'') (all_rules ObjectId lower s bcs est) =
     gpu_rule (role ObjectId s bcs ''gpu'') (role ObjectId s bcs ''case'')"
  "filter (prefix ''Cooler height'') (all_rules ObjectId lower s bcs est) =
     cooler_rule (role ObjectId s bcs ''cooler'') (role ObjectId s bcs ''case'')"
  "filter (prefix ''PSU wattage'') (all_rules ObjectId lower s bcs est) =
     psu_rule (role ObjectId s bcs ''psu'') est"
  "filter (prefix ''PSU form'') (all_rules ObjectId lower s bcs est) =
     psu_form_rule (role ObjectId s bcs ''psu'') (role ObjectId s bcs ''case'')"
  "filter (prefix ''Motherboard form'') (all_rules ObjectId lower s bcs est) =
     mobo_form_rule (role ObjectId s bcs ''motherboard'') (role ObjectId s bcs ''case'')"
  by (simp_all add: all_rules_def filter_rules)

section \<open>The rules\<close>

lemma socket_rule_explicit:
  "socket_rule lower cpu mobo =
     (case cpu of None \<Rightarrow> [] | Some c \<Rightarrow>
      (case mobo of None \<Rightarrow> [] | Some m \<Rightarrow>
       (case socket c of None \<Rightarrow> [] | Some cs \<Rightarrow>
        (case socket m of None \<Rightarrow> [] | Some ms \<Rightarrow>
           if cs \<noteq> [] \<and> ms \<noteq> [] \<and> lower cs \<noteq> lower ms
           then [''CPU socket '' @ cs @ '' not compatible with motherboard '' @ ms]
           else []))))"
  by (simp add: socket_rule_def truthy_str_def split: option.splits)

lemma ram_rule_explicit:
  "ram_rule lower ram mobo =
     (case ram of None \<Rightarrow> [] | Some r \<Rightarrow>
      (case mobo of None \<Rightarrow> [] | Some m \<Rightarrow>
       (case ram_type r of None \<Rightarrow> [] | Some rt \<Rightarrow>
        (case ram_type m of None \<Rightarrow> [] | Some mt \<Rightarrow>
           if rt \<noteq> [] \<and> mt \<noteq> [] \<and> lower rt \<noteq> lower mt
           then [''RAM type '' @ rt @ '' not compatible with motherboard '' @ mt]
           else []))))"
  by (simp add: ram_rule_def truthy_str_def split: option.splits)

lemma gpu_rule_explicit:
  "gpu_rule gpu case' =
     (case gpu of None \<Rightarrow> [] | Some g \<Rightarrow>
      (case case' of None \<Rightarrow> [] | Some c \<Rightarrow>
       (case gpu_length_mm g of None \<Rightarrow> [] | Some gl \<Rightarrow>
        (case max_gpu_length_mm c of None \<Rightarrow> [] | Some ml \<Rightarrow>
           if gl \<noteq> 0 \<and> ml \<noteq> 0 \<and> ml < gl
           then [''GPU length exceeds case maximum''] else []))))"
  by (simp add: gpu_rule_def truthy_nat_def split: option.splits)

lemma cooler_rule_explicit:
  "cooler_rule cooler case' =
     (case cooler of None \<Rightarrow> [] | Some k \<Rightarrow>
      (case case' of None \<Rightarrow> [] | Some c \<Rightarrow>
       (case cooler_height_mm k of None \<Rightarrow> [] | Some ch \<Rightarrow>
        (case case_max_cooler_height_mm c of None \<Rightarrow> [] | Some mh \<Rightarrow>
           if ch \<noteq> 0 \<and> mh \<noteq> 0 \<and> mh < ch
           then [''Cooler height exceeds case maximum''] else []))))"
  by (simp add: cooler_rule_def truthy_int_def split: option.splits)

lemma psu_rule_explicit:
  "psu_rule psu est =
     (case psu of None \<Rightarrow> [] | Some p \<Rightarrow>
      (case psu_wattage p of None \<Rightarrow> [] | Some w \<Rightarrow>
         if w \<noteq> 0 \<and> est \<noteq> 0 \<and> w < est
         then [''PSU wattage too low. Estimated '' @ str_nat est @ ''W, PSU is ''
                 @ str_nat w @ ''W'']
         else []))"
  by (simp add: psu_rule_def truthy_nat_def split: option.splits)

lemma psu_form_rule_explicit:
  "psu_form_rule psu case' =
     (case psu of None \<Rightarrow> [] | Some p \<Rightarrow>
      (case case' of None \<Rightarrow> [] | Some c \<Rightarrow>
       (case psu_form_factor p of None \<Rightarrow> [] | Some ff \<Rightarrow>
        (case case_supported_psu c of None \<Rightarrow> [] | Some fs \<Rightarrow>
           if ff \<noteq> [] \<and> fs \<noteq> [] \<and> ff \<notin> set fs
           then [''PSU form factor not supported by case''] else []))))"
  by (simp add: psu_form_rule_def truthy_str_def truthy_list_def split: option.splits)

lemma mobo_form_rule_explicit:
  "mobo_form_rule mobo case' =
     (case mobo of None \<Rightarrow> [] | Some m \<Rightarrow>
      (case case' of None \<Rightarrow> [] | Some c \<Rightarrow>
       (case motherboard_form_factor m of None \<Rightarrow> [] | Some ff \<Rightarrow>
        (case case_motherboard_support c of None \<Rightarrow> [] | Some fs \<Rightarrow>
           if ff \<noteq> [] \<and> fs \<noteq> [] \<and> ff \<notin> set fs
           then [''Motherboard form factor not supported by case''] else []))))"
  by (simp add: mobo_form_rule_def truthy_str_def truthy_list_def split: option.splits)

lemmas rules_explicit = socket_rule_explicit ram_rule_explicit gpu_rule_explicit
  cooler_rule_explicit psu_rule_explicit psu_form_rule_explicit mobo_form_rule_explicit

text \<open>
  Claim C2 (amended). Whenever the estimate is computed, \<open>compatibility_issues\<close> returns
  the concatenation, in the fixed order, of what each of the seven rules contributes,
  none of them skipped: a rule contributes its message exactly when the components it
  reads are resolved, both attributes it compares are declared and truthy (a non-empty
  string, a non-zero number, a non-empty list) and the comparison fails. A build on
  which the socket rule and the PSU sizing rule both fire gets both messages, the
  socket message first.
\<close>

theorem compatibility_issues_all_rules:
  assumes "fst (estimate_wattage ObjectId b s) = Inr est"
  shows "(let cpu = role ObjectId s (components b) ''cpu'';
              mobo = role ObjectId s (components b) ''motherboard'';
              ram = role ObjectId s (components b) ''ram'';
              gpu = role ObjectId s (components b) ''gpu'';
              case' = role ObjectId s (components b) ''case'';
              psu = role ObjectId s (components b) ''psu'';
              cooler = role ObjectId s (components b) ''cooler''
          in fst (compatibility_issues ObjectId lower b s) = Inr
           ((case cpu of None \<Rightarrow> [] | Some c \<Rightarrow>
             (case mobo of None \<Rightarrow> [] | Some m \<Rightarrow>
              (case socket c of None \<Rightarrow> [] | Some cs \<Rightarrow>
               (case socket m of None \<Rightarrow> [] | Some ms \<Rightarrow>
                  if cs \<noteq> [] \<and> ms \<noteq> [] \<and> lower cs \<noteq> lower ms
                  then [''CPU socket '' @ cs @ '' not compatible with motherboard '' @ ms]
                  else []))))
            @ (case ram of None \<Rightarrow> [] | Some r \<Rightarrow>
               (case mobo of None \<Rightarrow> [] | Some m \<Rightarrow>
                (case ram_type r of None \<Rightarrow> [] | Some rt \<Rightarrow>
                 (case ram_type m of None \<Rightarrow> [] | Some mt \<Rightarrow>
                    if rt \<noteq> [] \<and> mt \<noteq> [] \<and> lower rt \<noteq> lower mt
                    then [''RAM type '' @ rt @ '' not compatible with motherboard '' @ mt]
                    else []))))
            @ (case gpu of None \<Rightarrow> [] | Some g \<Rightarrow>
               (case case' of None \<Rightarrow> [] | Some c \<Rightarrow>
                (case gpu_length_mm g of None \<Rightarrow> [] | Some gl \<Rightarrow>
                 (case max_gpu_length_mm c of None \<Rightarrow> [] | Some ml \<Rightarrow>
                    if gl \<noteq> 0 \<and> ml \<noteq> 0 \<and> ml < gl
                    then [''GPU length exceeds case maximum''] else []))))
            @ (case cooler of None \<Rightarrow> [] | Some k \<Rightarrow>
               (case case' of None \<Rightarrow> [] | Some c \<Rightarrow>
                (case cooler_height_mm k of None \<Rightarrow> [] | Some ch \<Rightarrow>
                 (case case_max_cooler_height_mm c of None \<Rightarrow> [] | Some mh \<Rightarrow>
                    if ch \<noteq> 0 \<and> mh \<noteq> 0 \<and> mh < ch
                    then [''Cooler height exceeds case maximum''] else []))))
            @ (case psu of None \<Rightarrow> [] | Some p \<Rightarrow>
               (case psu_wattage p of None \<Rightarrow> [] | Some w \<Rightarrow>
                  if w \<noteq> 0 \<and> est \<noteq> 0 \<and> w < est
                  then [''PSU wattage too low. Estimated '' @ str_nat est @ ''W, PSU is ''
                          @ str_nat w @ ''W'']
                  else []))
            @ (case psu of None \<Rightarrow> [] | Some p \<Rightarrow>
               (case case' of None \<Rightarrow> [] | Some c \<Rightarrow>
                (case psu_form_factor p of None \<Rightarrow> [] | Some ff \<Rightarrow>
                 (case case_supported_psu c of None \<Rightarrow> [] | Some fs \<Rightarrow>
                    if ff \<noteq> [] \<and> fs \<noteq> [] \<and> ff \<notin> set fs
                    then [''PSU form factor not supported by case''] else []))))
            @ (case mobo of None \<Rightarrow> [] | Some m \<Rightarrow>
               (case case' of None \<Rightarrow> [] | Some c \<Rightarrow>
                (case motherboard_form_factor m of None \<Rightarrow> [] | Some ff \<Rightarrow>
                 (case case_motherboard_support c of None \<Rightarrow> [] | Some fs \<Rightarrow>
                    if ff \<noteq> [] \<and> fs \<noteq> [] \<and> ff \<notin> set fs
                    then [''Motherboard form factor not supported by case''] else []))))))
    \<and> (\<forall>c m cs ms p w.
          role ObjectId s (components b) ''cpu'' = Some c
          \<and> role ObjectId s (components b) ''motherboard'' = Some m
          \<and> socket c = Some cs \<and> socket m = Some ms
          \<and> cs \<noteq> [] \<and> ms \<noteq> [] \<and> lower cs \<noteq> lower ms
          \<and> role ObjectId s (components b) ''psu'' = Some p
          \<and> psu_wattage p = Some w \<and> w \<noteq> 0 \<and> est \<noteq> 0 \<and> w < est
          \<longrightarrow> (\<exists>ys zs. fst (compatibility_issues ObjectId lower b s) =
                 Inr ((''CPU socket '' @ cs @ '' not compatible with motherboard '' @ ms) # ys
                      @ (''PSU wattage too low. Estimated '' @ str_nat est @ ''W, PSU is ''
                           @ str_nat w @ ''W'') # zs)))"
proof (intro conjI allI impI)
  have all: "fst (compatibility_issues ObjectId lower b s)
               = Inr (all_rules ObjectId lower s (components b) est)"
    using assms by (rule compat_of_estimate)
  show "let cpu = role ObjectId s (components b) ''cpu'';
              mobo = role ObjectId s (components b) ''motherboard'';
              ram = role ObjectId s (components b) ''ram'';
              gpu = role ObjectId s (components b) ''gpu'';
              case' = role ObjectId s (components b) ''case'';
              psu = role ObjectId s (components b) ''psu'';
              cooler = role ObjectId s (components b) ''cooler''
          in fst (compatibility_issues ObjectId lower b s) = Inr
           ((case cpu of None \<Rightarrow> [] | Some c \<Rightarrow>
             (case mobo of None \<Rightarrow> [] | Some m \<Rightarrow>
              (case socket c of None \<Rightarrow> [] | Some cs \<Rightarrow>
               (case socket m of None \<Rightarrow> [] | Some ms \<Rightarrow>
                  if cs \<noteq> [] \<and> ms \<noteq> [] \<and> lower cs \<noteq> lower ms
                  then [''CPU socket '' @ cs @ '' not compatible with motherboard '' @ ms]
                  else []))))
            @ (case ram of None \<Rightarrow> [] | Some r \<Rightarrow>
               (case mobo of None \<Rightarrow> [] | Some m \<Rightarrow>
                (case ram_type r of None \<Rightarrow> [] | Some rt \<Rightarrow>
                 (case ram_type m of None \<Rightarrow> [] | Some mt \<Rightarrow>
                    if rt \<noteq> [] \<and> mt \<noteq> [] \<and> lower rt \<noteq> lower mt
                    then [''RAM type '' @ rt @ '' not compatible with motherboard '' @ mt]
                    else []))))
            @ (case gpu of None \<Rightarrow> [] | Some g \<Rightarrow>
               (case case' of None \<Rightarrow> [] | Some c \<Rightarrow>
                (case gpu_length_mm g of None \<Rightarrow> [] | Some gl \<Rightarrow>
                 (case max_gpu_length_mm c of None \<Rightarrow> [] | Some ml \<Rightarrow>
                    if gl \<noteq> 0 \<and> ml \<noteq> 0 \<and> ml < gl
                    then [''GPU length exceeds case maximum''] else []))))
            @ (case cooler of None \<Rightarrow> [] | Some k \<Rightarrow>
               (case case' of None \<Rightarrow> [] | Some c \<Rightarrow>
                (case cooler_height_mm k of None \<Rightarrow> [] | Some ch \<Rightarrow>
                 (case case_max_cooler_height_mm c of None \<Rightarrow> [] | Some mh \<Rightarrow>
                    if ch \<noteq> 0 \<and> mh \<noteq> 0 \<and> mh < ch
                    then [''Cooler height exceeds case maximum''] else []))))
            @ (case psu of None \<Rightarrow> [] | Some p \<Rightarrow>
               (case psu_wattage p of None \<Rightarrow> [] | Some w \<Rightarrow>
                  if w \<noteq> 0 \<and> est \<noteq> 0 \<and> w < est
                  then [''PSU wattage too low. Estimated '' @ str_nat est @ ''W, PSU is ''
                          @ str_nat w @ ''W'']
                  else []))
            @ (case psu of None \<Rightarrow> [] | Some p \<Rightarrow>
               (case case' of None \<Rightarrow> [] | Some c \<Rightarrow>
                (case psu_form_factor p of None \<Rightarrow> [] | Some ff \<Rightarrow>
                 (case case_supported_psu c of None \<Rightarrow> [] | Some fs \<Rightarrow>
                    if ff \<noteq> [] \<and> fs \<noteq> [] \<and> ff \<notin> set fs
                    then [''PSU form factor not supported by case''] else []))))
            @ (case mobo of None \<Rightarrow> [] | Some m \<Rightarrow>
               (case case' of None \<Rightarrow> [] | Some c \<Rightarrow>
                (case motherboard_form_factor m of None \<Rightarrow> [] | Some ff \<Rightarrow>
                 (case case_motherboard_support c of None \<Rightarrow> [] | Some fs \<Rightarrow>
                    if ff \<noteq> [] \<and> fs \<noteq> [] \<and> ff \<notin> set fs
                    then [''Motherboard form factor not supported by case''] else [])))))"
    unfolding Let_def all all_rules_def
    by (simp only: rules_explicit)
  fix c m cs ms p w
  assume h: "role ObjectId s (components b) ''cpu'' = Some c
          \<and> role ObjectId s (components b) ''motherboard'' = Some m
          \<and> socket c = Some cs \<and> socket m = Some ms
          \<and> cs \<noteq> [] \<and> ms \<noteq> [] \<and> lower cs \<noteq> lower ms
          \<and> role ObjectId s (components b) ''psu'' = Some p
          \<and> psu_wattage p = Some w \<and> w \<noteq> 0 \<and> est \<noteq> 0 \<and> w < est"
  then have 1: "socket_rule lower (role ObjectId s (components b) ''cpu'')
                  (role ObjectId s (components b) ''motherboard'')
                = [''CPU socket '' @ cs @ '' not compatible with motherboard '' @ ms]"
    by (simp add: socket_rule_def truthy_str_def)
  from h have 5: "psu_rule (role ObjectId s (components b) ''psu'') est
                = [''PSU wattage too low. Estimated '' @ str_nat est @ ''W, PSU is ''
                           @ str_nat w @ ''W'']"
    by (simp add: psu_rule_def truthy_nat_def)
  show "\<exists>ys zs. fst (compatibility_issues ObjectId lower b s) =
                 Inr ((''CPU socket '' @ cs @ '' not compatible with motherboard '' @ ms) # ys
                      @ (''PSU wattage too low. Estimated '' @ str_nat est @ ''W, PSU is ''
                           @ str_nat w @ ''W'') # zs)"
    unfolding all all_rules_def 1 5
    by (intro exI [of _ "ram_rule lower (role ObjectId s (components b) ''ram'')
              (role ObjectId s (components b) ''motherboard'')
            @ gpu_rule (role ObjectId s (components b) ''gpu'')
              (role ObjectId s (components b) ''case'')
            @ cooler_rule (role ObjectId s (components b) ''cooler'')
              (role ObjectId s (components b) ''case'')"]
          exI [of _ "psu_form_rule (role ObjectId s (components b) ''psu'')
              (role ObjectId s (components b) ''case'')
            @ mobo_form_rule (role ObjectId s (components b) ''motherboard'')
              (role ObjectId s (components b) ''case'')"]) simp
qed

lemmas run_defs = ex_defs oid_def find_one_def estimate_wattage_def int_mul_1_3_def
  round53_def bit_length.simps Let_def compatibility_issues_def comps_get_def

lemmas rule_defs = all_rules_def role_def socket_rule_def ram_rule_def gpu_rule_def
  cooler_rule_def psu_rule_def psu_form_rule_def mobo_form_rule_def truthy_str_def
  truthy_nat_def truthy_int_def truthy_list_def ex_lower_def ex_lower_char_def str_nat.simps

theorem compatibility_issues_all_rules_witness:
  "fst (estimate_wattage ex_ObjectId
          (ex_build [ref ''c16'' ''cpu'', ref ''c18'' ''motherboard'', ref ''c17'' ''ram'',
                     ref ''c22'' ''gpu'', ref ''c19'' ''case'', ref ''c20'' ''cooler'',
                     ref ''c21'' ''psu'']) ex_db) = Inr 520
   \<and> fst (compatibility_issues ex_ObjectId ex_lower
          (ex_build [ref ''c16'' ''cpu'', ref ''c18'' ''motherboard'', ref ''c17'' ''ram'',
                     ref ''c22'' ''gpu'', ref ''c19'' ''case'', ref ''c20'' ''cooler'',
                     ref ''c21'' ''psu'']) ex_db)
       = Inr [''CPU socket LGA1700 not compatible with motherboard AM5'',
              ''RAM type DDR4 not compatible with motherboard DDR5'',
              ''GPU length exceeds case maximum'',
              ''Cooler height exceeds case maximum'',
              ''PSU wattage too low. Estimated 520W, PSU is 500W'',
              ''PSU form factor not supported by case'',
              ''Motherboard form factor not supported by case'']"
proof -
  have h: "fst (estimate_wattage ex_ObjectId
          (ex_build [ref ''c16'' ''cpu'', ref ''c18'' ''motherboard'', ref ''c17'' ''ram'',
                     ref ''c22'' ''gpu'', ref ''c19'' ''case'', ref ''c20'' ''cooler'',
                     ref ''c21'' ''psu'']) ex_db) = Inr 520"
    by (simp add: run_defs)
  show ?thesis
    using h compatibility_issues_all_rules [OF h, of ex_lower, THEN conjunct1]
    by (simp add: ex_defs role_def ex_lower_def ex_lower_char_def str_nat.simps Let_def)
qed

theorem compatibility_issues_all_rules_counterexample:
  "map_option socket (ex_catalog 13) = Some (Some [])
   \<and> map_option socket (ex_catalog 3) = Some (Some ''LGA1700'')
   \<and> ex_lower [] \<noteq> ex_lower ''LGA1700''
   \<and> map_option psu_wattage (ex_catalog 6) = Some (Some 500)
   \<and> fst (estimate_wattage ex_ObjectId
            (ex_build [ref ''c13'' ''cpu'', ref ''c3'' ''motherboard'', ref ''c7'' ''gpu'',
                       ref ''c6'' ''psu'']) ex_db) = Inr 520
   \<and> fst (compatibility_issues ex_ObjectId ex_lower
            (ex_build [ref ''c13'' ''cpu'', ref ''c3'' ''motherboard'', ref ''c7'' ''gpu'',
                       ref ''c6'' ''psu'']) ex_db)
       = Inr [''PSU wattage too low. Estimated 520W, PSU is 500W'']
   \<and> fst (compatibility_issues ex_ObjectId ex_lower
            (ex_build [ref ''c1'' ''cpu'', ref ''c3'' ''motherboard'', ref ''c7'' ''gpu'',
                       ref ''c6'' ''psu'', ref ''zz'' ''storage'']) ex_db)
       = Inl (HTTPException 400 (Text ''Invalid id''))"
  by (simp add: run_defs rule_defs)

text \<open>
  Claim C3 (amended). The socket rule contributes exactly one message, naming both
  socket values, when the cpu and the motherboard both declare a non-empty socket and
  the two differ after \<open>str.lower\<close> (the parameter \<open>lower\<close>); otherwise it contributes
  none.
\<close>

theorem socket_rule_fires:
  assumes "fst (compatibility_issues ObjectId lower b s) = Inr issues"
  shows "(\<forall>c m cs ms.
            role ObjectId s (components b) ''cpu'' = Some c
            \<and> role ObjectId s (components b) ''motherboard'' = Some m
            \<and> socket c = Some cs \<and> socket m = Some ms
            \<and> cs \<noteq> [] \<and> ms \<noteq> [] \<and> lower cs \<noteq> lower ms
            \<longrightarrow> filter (prefix ''CPU socket '') issues
                 = [''CPU socket '' @ cs @ '' not compatible with motherboard '' @ ms])
       \<and> (\<not> (\<exists>c m cs ms.
            role ObjectId s (components b) ''cpu'' = Some c
            \<and> role ObjectId s (components b) ''motherboard'' = Some m
            \<and> socket c = Some cs \<and> socket m = Some ms
            \<and> cs \<noteq> [] \<and> ms \<noteq> [] \<and> lower cs \<noteq> lower ms)
            \<longrightarrow> filter (prefix ''CPU socket '') issues = [])"
proof -
  from assms obtain est where "issues = all_rules ObjectId lower s (components b) est"
    by (rule compat_Inr)
  then have f: "filter (prefix ''CPU socket '') issues =
     socket_rule lower (role ObjectId s (components b) ''cpu'')
       (role ObjectId s (components b) ''motherboard'')"
    by (simp only: filter_all_rules)
  show ?thesis
    unfolding f by (auto simp: socket_rule_def truthy_str_def split: option.splits)
qed

text \<open>
  Claim C4 (amended). The GPU clearance rule fires exactly when the gpu declares a
  length, the case declares a non-zero maximum, and the length exceeds the maximum.
\<close>

theorem gpu_rule_fires:
  assumes "fst (compatibility_issues ObjectId lower b s) = Inr issues"
  shows "filter (prefix ''GPU length'') issues =
    (if \<exists>g c gl ml.
          role ObjectId s (components b) ''gpu'' = Some g
          \<and> role ObjectId s (components b) ''case'' = Some c
          \<and> gpu_length_mm g = Some gl \<and> max_gpu_length_mm c = Some ml
          \<and> ml \<noteq> 0 \<and> ml < gl
     then [''GPU length exceeds case maximum''] else [])"
proof -
  from assms obtain est where "issues = all_rules ObjectId lower s (components b) est"
    by (rule compat_Inr)
  then have f: "filter (prefix ''GPU length'') issues =
     gpu_rule (role ObjectId s (components b) ''gpu'') (role ObjectId s (components b) ''case'')"
    by (simp only: filter_all_rules)
  show ?thesis
    unfolding f by (auto simp: gpu_rule_def truthy_nat_def split: option.splits)
qed

text \<open>
  Claim C5 (amended). The PSU sizing rule fires exactly when the psu declares a
  non-zero wattage, the estimate is non-zero and the wattage is below the estimate; the
  message cites the estimate and the declared wattage.
\<close>

theorem psu_rule_fires:
  assumes "fst (estimate_wattage ObjectId b s) = Inr est"
  shows "\<exists>issues. fst (compatibility_issues ObjectId lower b s) = Inr issues
    \<and> (\<forall>p w. role ObjectId s (components b) ''psu'' = Some p \<and> psu_wattage p = Some w
              \<and> w \<noteq> 0 \<and> est \<noteq> 0 \<and> w < est
          \<longrightarrow> filter (prefix ''PSU wattage'') issues
               = [''PSU wattage too low. Estimated '' @ str_nat est @ ''W, PSU is ''
                    @ str_nat w @ ''W''])
    \<and> (\<not> (\<exists>p w. role ObjectId s (components b) ''psu'' = Some p \<and> psu_wattage p = Some w
              \<and> w \<noteq> 0 \<and> est \<noteq> 0 \<and> w < est)
          \<longrightarrow> filter (prefix ''PSU wattage'') issues = [])"
proof -
  have c: "fst (compatibility_issues ObjectId lower b s) = Inr (all_rules ObjectId lower s (components b) est)"
    using assms by (rule compat_of_estimate)
  have f: "filter (prefix ''PSU wattage'') (all_rules ObjectId lower s (components b) est) =
     psu_rule (role ObjectId s (components b) ''psu'') est"
    by (simp only: filter_all_rules)
  show ?thesis
    by (rule exI [of _ "all_rules ObjectId lower s (components b) est"])
      (auto simp: c f psu_rule_def truthy_nat_def split: option.splits)
qed

theorem socket_rule_fires_witness:
  "\<exists>issues.
     fst (compatibility_issues ex_ObjectId ex_lower
            (ex_build [ref ''c1'' ''cpu'', ref ''c3'' ''motherboard'']) ex_db) = Inr issues
     \<and> filter (prefix ''CPU socket '') issues
         = [''CPU socket AM5 not compatible with motherboard LGA1700'']"
proof -
  let ?b = "ex_build [ref ''c1'' ''cpu'', ref ''c3'' ''motherboard'']"
  have h: "fst (compatibility_issues ex_ObjectId ex_lower ?b ex_db)
     = Inr [''CPU socket AM5 not compatible with motherboard LGA1700'']"
    by (simp add: run_defs rule_defs)
  obtain c m where r: "role ex_ObjectId ex_db (components ?b) ''cpu'' = Some c"
    "role ex_ObjectId ex_db (components ?b) ''motherboard'' = Some m"
    "socket c = Some ''AM5''" "socket m = Some ''LGA1700''"
    by (simp add: ex_defs role_def)
  have l: "ex_lower ''AM5'' \<noteq> ex_lower ''LGA1700''" by (simp add: ex_lower_def ex_lower_char_def)
  from socket_rule_fires [OF h] r l
  have "filter (prefix ''CPU socket '')
          [''CPU socket AM5 not compatible with motherboard LGA1700'']
        = [''CPU socket '' @ ''AM5'' @ '' not compatible with motherboard '' @ ''LGA1700'']"
    by blast
  with h show ?thesis by simp
qed

theorem socket_rule_empty_counterexample:
  "map_option socket (ex_catalog 13) = Some (Some [])
   \<and> map_option socket (ex_catalog 3) = Some (Some ''LGA1700'')
   \<and> ex_lower [] \<noteq> ex_lower ''LGA1700''
   \<and> fst (compatibility_issues ex_ObjectId ex_lower
          (ex_build [ref ''c13'' ''cpu'', ref ''c3'' ''motherboard'']) ex_db) = Inr []"
  by (simp add: run_defs rule_defs)

theorem gpu_rule_fires_witness:
  "(\<exists>issues.
     fst (compatibility_issues ex_ObjectId ex_lower
            (ex_build [ref ''c4'' ''gpu'', ref ''c5'' ''case'']) ex_db) = Inr issues
     \<and> filter (prefix ''GPU length'') issues = [''GPU length exceeds case maximum''])
   \<and> (\<exists>issues.
     fst (compatibility_issues ex_ObjectId ex_lower
            (ex_build [ref ''c7'' ''gpu'', ref ''c5'' ''case'']) ex_db) = Inr issues
     \<and> filter (prefix ''GPU length'') issues = [])"
proof -
  let ?b = "ex_build [ref ''c4'' ''gpu'', ref ''c5'' ''case'']"
  let ?b2 = "ex_build [ref ''c7'' ''gpu'', ref ''c5'' ''case'']"
  have h: "fst (compatibility_issues ex_ObjectId ex_lower ?b ex_db)
     = Inr [''GPU length exceeds case maximum'']"
    by (simp add: run_defs rule_defs)
  have h2: "fst (compatibility_issues ex_ObjectId ex_lower ?b2 ex_db) = Inr []"
    by (simp add: run_defs rule_defs)
  obtain g c where r: "role ex_ObjectId ex_db (components ?b) ''gpu'' = Some g"
    "role ex_ObjectId ex_db (components ?b) ''case'' = Some c"
    "gpu_length_mm g = Some 350" "max_gpu_length_mm c = Some 320"
    by (simp add: ex_defs role_def)
  then have "\<exists>g c gl ml.
          role ex_ObjectId ex_db (components ?b) ''gpu'' = Some g
          \<and> role ex_ObjectId ex_db (components ?b) ''case'' = Some c
          \<and> gpu_length_mm g = Some gl \<and> max_gpu_length_mm c = Some ml
          \<and> ml \<noteq> 0 \<and> ml < gl"
    by (intro exI [of _ g] exI [of _ c] exI [of _ 350] exI [of _ 320]) simp
  with gpu_rule_fires [OF h]
  have 1: "filter (prefix ''GPU length'') [''GPU length exceeds case maximum'']
        = [''GPU length exceeds case maximum'']"
    by (simp only: if_True)
  have "\<not> (\<exists>g c gl ml.
          role ex_ObjectId ex_db (components ?b2) ''gpu'' = Some g
          \<and> role ex_ObjectId ex_db (components ?b2) ''case'' = Some c
          \<and> gpu_length_mm g = Some gl \<and> max_gpu_length_mm c = Some ml
          \<and> ml \<noteq> 0 \<and> ml < gl)"
    by (simp add: ex_defs role_def)
  with gpu_rule_fires [OF h2]
  have 2: "filter (prefix ''GPU length'') ([] :: string list) = []"
    by (simp only: if_False)
  from h 1 h2 2 show ?thesis by blast
qed

theorem gpu_rule_zero_counterexample:
  "map_option gpu_length_mm (ex_catalog 4) = Some (Some 350)
   \<and> map_option max_gpu_length_mm (ex_catalog 11) = Some (Some 0)
   \<and> (0::nat) < 350
   \<and> fst (compatibility_issues ex_ObjectId ex_lower
          (ex_build [ref ''c4'' ''gpu'', ref ''c11'' ''case'']) ex_db) = Inr []"
  by (simp add: run_defs rule_defs)

theorem psu_rule_fires_witness:
  "fst (estimate_wattage ex_ObjectId (ex_build [ref ''c7'' ''gpu'', ref ''c6'' ''psu'']) ex_db)
     = Inr 520
   \<and> (\<exists>issues.
        fst (compatibility_issues ex_ObjectId ex_lower
               (ex_build [ref ''c7'' ''gpu'', ref ''c6'' ''psu'']) ex_db) = Inr issues
        \<and> filter (prefix ''PSU wattage'') issues
            = [''PSU wattage too low. Estimated 520W, PSU is 500W''])
   \<and> fst (estimate_wattage ex_ObjectId (ex_build [ref ''c7'' ''gpu'', ref ''c8'' ''psu'']) ex_db)
     = Inr 520
   \<and> (\<exists>issues.
        fst (compatibility_issues ex_ObjectId ex_lower
               (ex_build [ref ''c7'' ''gpu'', ref ''c8'' ''psu'']) ex_db) = Inr issues
        \<and> filter (prefix ''PSU wattage'') issues = [])"
proof -
  let ?b = "ex_build [ref ''c7'' ''gpu'', ref ''c6'' ''psu'']"
  let ?b2 = "ex_build [ref ''c7'' ''gpu'', ref ''c8'' ''psu'']"
  have h: "fst (estimate_wattage ex_ObjectId ?b ex_db) = Inr 520"
    by (simp add: run_defs)
  have h2: "fst (estimate_wattage ex_ObjectId ?b2 ex_db) = Inr 520"
    by (simp add: run_defs)
  obtain p where r: "role ex_ObjectId ex_db (components ?b) ''psu'' = Some p"
    "psu_wattage p = Some 500"
    by (simp add: ex_defs role_def)
  from psu_rule_fires [OF h] obtain issues where
    c: "fst (compatibility_issues ex_ObjectId ex_lower ?b ex_db) = Inr issues"
    and f: "\<forall>p w. role ex_ObjectId ex_db (components ?b) ''psu'' = Some p
              \<and> psu_wattage p = Some w \<and> w \<noteq> 0 \<and> (520::nat) \<noteq> 0 \<and> w < 520
          \<longrightarrow> filter (prefix ''PSU wattage'') issues
               = [''PSU wattage too low. Estimated '' @ str_nat 520 @ ''W, PSU is ''
                    @ str_nat w @ ''W'']"
    by blast
  from f r have "filter (prefix ''PSU wattage'') issues
               = [''PSU wattage too low. Estimated '' @ str_nat 520 @ ''W, PSU is ''
                    @ str_nat 500 @ ''W'']"
    by simp
  then have 1: "filter (prefix ''PSU wattage'') issues
               = [''PSU wattage too low. Estimated 520W, PSU is 500W'']"
    by (simp add: str_nat.simps)
  have n: "\<not> (\<exists>p w. role ex_ObjectId ex_db (components ?b2) ''psu'' = Some p
              \<and> psu_wattage p = Some w \<and> w \<noteq> 0 \<and> (520::nat) \<noteq> 0 \<and> w < 520)"
    by (simp add: ex_defs role_def)
  from psu_rule_fires [OF h2] n obtain issues2 where
    c2: "fst (compatibility_issues ex_ObjectId ex_lower ?b2 ex_db) = Inr issues2"
    and f2: "filter (prefix ''PSU wattage'') issues2 = []"
    by blast
  from h c 1 h2 c2 f2 show ?thesis by blast
qed

theorem psu_rule_zero_counterexample:
  "map_option psu_wattage (ex_catalog 12) = Some (Some 0)
   \<and> fst (estimate_wattage ex_ObjectId (ex_build [ref ''c7'' ''gpu'', ref ''c12'' ''psu'']) ex_db)
       = Inr 520
   \<and> (0::nat) < 520
   \<and> fst (compatibility_issues ex_ObjectId ex_lower
          (ex_build [ref ''c7'' ''gpu'', ref ''c12'' ''psu'']) ex_db) = Inr []"
  by (simp add: run_defs rule_defs)

section \<open>The pricing loop\<close>

lemma resolved_well_formed: "resolved ObjectId s bc \<Longrightarrow> well_formed ObjectId bc"
  by (auto simp: resolved_def resolve_def well_formed_def split: option.splits)

lemma resolved_logged [simp]: "resolved ObjectId (logged s ks) bc = resolved ObjectId s bc"
  by (simp add: resolved_def)

lemma price_total_logged [simp]:
  "price_total ObjectId (logged s ks) bcs t = price_total ObjectId s bcs t"
  by (induction bcs arbitrary: t) simp_all

lemma price_loop_ok:
  "list_all (resolved ObjectId s) bcs \<Longrightarrow>
   price_loop ObjectId bcs t s =
     (Inr (price_total ObjectId s bcs t), logged s (keys_of ObjectId bcs))"
proof (induction bcs arbitrary: t s)
  case Nil
  then show ?case by simp
next
  case (Cons bc bcs)
  then obtain k d where k: "ObjectId (component_id bc) = Some k" and d: "component s k = Some d"
    by (auto simp: resolved_def resolve_def split: option.splits)
  from Cons.prems have "list_all (resolved ObjectId (logged s [k])) bcs"
    by (simp add: list_all_iff)
  from Cons.IH [OF this] show ?case
    using k d by (simp add: oid_def find_one_logged resolve_def add_price_def)
qed

lemma price_loop_malformed:
  "list_all (resolved ObjectId s) pre \<Longrightarrow> \<not> well_formed ObjectId bc \<Longrightarrow>
   price_loop ObjectId (pre @ bc # post) t s = (Inl invalid_id, logged s (keys_of ObjectId pre))"
proof (induction pre arbitrary: t s)
  case Nil
  then show ?case by (simp add: oid_def well_formed_def invalid_id_def)
next
  case (Cons x pre)
  then obtain k d where k: "ObjectId (component_id x) = Some k" and d: "component s k = Some d"
    by (auto simp: resolved_def resolve_def split: option.splits)
  from Cons.prems have "list_all (resolved ObjectId (logged s [k])) pre"
    by (simp add: list_all_iff)
  from Cons.IH [OF this Cons.prems(2)] show ?case
    using k d by (simp add: oid_def find_one_logged)
qed

lemma price_loop_missing:
  "list_all (resolved ObjectId s) pre \<Longrightarrow> ObjectId (component_id bc) = Some kb \<Longrightarrow>
   component s kb = None \<Longrightarrow>
   price_loop ObjectId (pre @ bc # post) t s =
     (Inl (not_found (component_id bc)), logged s (keys_of ObjectId pre @ [kb]))"
proof (induction pre arbitrary: t s)
  case Nil
  then show ?case by (simp add: oid_def find_one_logged not_found_def)
next
  case (Cons x pre)
  then obtain k d where k: "ObjectId (component_id x) = Some k" and d: "component s k = Some d"
    by (auto simp: resolved_def resolve_def split: option.splits)
  from Cons.prems have "list_all (resolved ObjectId (logged s [k])) pre"
    "component (logged s [k]) kb = None"
    by (simp_all add: list_all_iff)
  from Cons.IH [OF this(1) Cons.prems(2) this(2)] show ?case
    using k d by (simp add: oid_def find_one_logged)
qed

lemma split_first_unresolved:
  assumes "\<not> list_all (resolved ObjectId s) bcs"
  obtains pre bc post where "bcs = pre @ bc # post"
    "list_all (resolved ObjectId s) pre" "\<not> resolved ObjectId s bc"
proof -
  from assms have "\<exists>x\<in>set bcs. \<not> resolved ObjectId s x" by (simp add: list_all_iff)
  then obtain pre bc post where "bcs = pre @ bc # post" "\<not> resolved ObjectId s bc"
    "\<forall>y\<in>set pre. \<not> \<not> resolved ObjectId s y"
    by (auto dest!: split_list_first_prop)
  then show ?thesis using that by (auto simp: list_all_iff)
qed

lemma price_loop_unresolved:
  assumes "list_all (resolved ObjectId s) pre" "\<not> resolved ObjectId s bc"
  shows "\<exists>e ks. price_loop ObjectId (pre @ bc # post) t s = (Inl e, logged s ks)
           \<and> (e = invalid_id \<or> e = not_found (component_id bc))"
proof (cases "ObjectId (component_id bc)")
  case None
  then have "\<not> well_formed ObjectId bc" by (simp add: well_formed_def)
  from price_loop_malformed [OF assms(1) this] show ?thesis by blast
next
  case (Some kb)
  with assms(2) have "component s kb = None" by (simp add: resolved_def resolve_def)
  from price_loop_missing [OF assms(1) Some this] show ?thesis by blast
qed

lemma price_loop_Inr:
  assumes "price_loop ObjectId bcs t s = (Inr t', s1)"
  shows "list_all (resolved ObjectId s) bcs" "t' = price_total ObjectId s bcs t"
    "s1 = logged s (keys_of ObjectId bcs)"
proof -
  show r: "list_all (resolved ObjectId s) bcs"
  proof (rule ccontr)
    assume "\<not> list_all (resolved ObjectId s) bcs"
    then obtain pre bc post where "bcs = pre @ bc # post"
      "list_all (resolved ObjectId s) pre" "\<not> resolved ObjectId s bc"
      by (rule split_first_unresolved)
    with price_loop_unresolved [of ObjectId s pre bc post t] assms show False by auto
  qed
  from assms price_loop_ok [OF r, of t]
  show "t' = price_total ObjectId s bcs t" "s1 = logged s (keys_of ObjectId bcs)" by simp_all
qed

section \<open>Build creation\<close>

lemma estimate_cong:
  assumes "components b = components b'"
  shows "estimate_wattage ObjectId b = estimate_wattage ObjectId b'"
  by (rule ext) (simp add: estimate_wattage_def assms)

lemma compat_cong:
  assumes "components b = components b'"
  shows "compatibility_issues ObjectId lower b s = compatibility_issues ObjectId lower b' s"
  unfolding compatibility_issues_def estimate_cong [OF assms] assms ..

lemma compat_cases:
  obtains (ok) "list_all (well_formed ObjectId) (components b)"
      "compatibility_issues ObjectId lower b s =
        (case est_result ObjectId s (components b) of
           Inl e \<Rightarrow> Inl e
         | Inr est \<Rightarrow> Inr (all_rules ObjectId lower s (components b) est),
         logged s (keys_of ObjectId (components b) @ keys_of ObjectId (components b)))"
    | (bad) pre bc post where "components b = pre @ bc # post"
      "list_all (well_formed ObjectId) pre" "\<not> well_formed ObjectId bc"
      "compatibility_issues ObjectId lower b s = (Inl invalid_id, logged s (keys_of ObjectId pre))"
proof (cases "list_all (well_formed ObjectId) (components b)")
  case True
  then show ?thesis by (intro ok compat_ok)
next
  case False
  then obtain pre bc post where *: "components b = pre @ bc # post"
    "list_all (well_formed ObjectId) pre" "\<not> well_formed ObjectId bc"
    by (rule split_first_malformed)
  then show ?thesis by (intro bad [OF *] compat_bad)
qed

lemma compat_fst_logged:
  "fst (compatibility_issues ObjectId lower b (logged s ks)) = fst (compatibility_issues ObjectId lower b s)"
proof (cases rule: compat_cases [where ObjectId = ObjectId and lower = lower and b = b and s = s])
  case ok
  then show ?thesis by (simp add: compat_ok [OF ok(1)] est_result_def split: sum.splits)
next
  case (bad pre bc post)
  then show ?thesis by (simp add: compat_bad [OF bad(1-3)])
qed

lemma compat_snd_logged:
  "\<exists>ks'. snd (compatibility_issues ObjectId lower b s) = logged s ks'"
proof (cases rule: compat_cases [where ObjectId = ObjectId and lower = lower and b = b and s = s])
  case ok
  then show ?thesis by (metis snd_conv)
next
  case (bad pre bc post)
  then show ?thesis by (metis snd_conv)
qed

lemma create_build_Inr:
  assumes "create_build ObjectId lower b s = (Inr (i, t), s')"
  shows "list_all (resolved ObjectId s) (components b)"
    and "t = price_total ObjectId s (components b) 0"
    and "i = length (build s)"
    and "fst (compatibility_issues ObjectId lower b s) = Inr []"
    and "\<exists>ks. s' = (logged s ks)\<lparr>build := build s @ [b\<lparr>total_price := Some t\<rparr>]\<rparr>"
proof -
  obtain r1 s1 where p: "price_loop ObjectId (components b) 0 s = (r1, s1)"
    by (cases "price_loop ObjectId (components b) 0 s")
  with assms obtain t0 where r1: "r1 = Inr t0"
    by (cases r1) (simp_all add: create_build_def)
  note pl = price_loop_Inr [OF p [unfolded r1]]
  obtain r2 s2 where c: "compatibility_issues ObjectId lower b s1 = (r2, s2)"
    by (cases "compatibility_issues ObjectId lower b s1")
  with assms p r1 obtain problems where r2: "r2 = Inr problems"
    by (cases r2) (simp_all add: create_build_def)
  from assms p r1 c r2 have e: "problems = []" "t = t0" "i = length (build s2)"
    "s' = s2\<lparr>build := build s2 @ [b\<lparr>total_price := Some t0\<rparr>]\<rparr>"
    by (auto simp: create_build_def split: if_splits)
  from compat_snd_logged [where ObjectId = ObjectId and lower = lower and b = b and s = s1] c obtain ks' where s2: "s2 = logged s1 ks'"
    by auto
  show "list_all (resolved ObjectId s) (components b)" by (rule pl(1))
  show "t = price_total ObjectId s (components b) 0" using e(2) pl(2) by simp
  show "i = length (build s)" using e(3) s2 pl(3) by simp
  have "fst (compatibility_issues ObjectId lower b s1) = Inr []" using c r2 e(1) by simp
  then show "fst (compatibility_issues ObjectId lower b s) = Inr []"
    by (simp add: pl(3) compat_fst_logged)
  show "\<exists>ks. s' = (logged s ks)\<lparr>build := build s @ [b\<lparr>total_price := Some t\<rparr>]\<rparr>"
    using e(4) e(2) s2 pl(3) by (intro exI [of _ "keys_of ObjectId (components b) @ ks'"]) simp
qed

lemma price_total_sum:
  fixes t :: "'f::{zero,plus}"
  assumes "\<forall>y::'f. y + 0 = y"
  shows "price_total ObjectId s bcs t
           = foldl (+) t (map (\<lambda>bc. declared_price (resolve ObjectId s bc)) bcs)"
proof (induction bcs arbitrary: t)
  case Nil
  then show ?case by simp
next
  case (Cons bc bcs)
  have "add_price t (resolve ObjectId s bc) = t + declared_price (resolve ObjectId s bc)"
    using assms by (simp add: add_price_def declared_price_def split: option.splits)
  then show ?case by (simp add: Cons.IH)
qed

lemma create_build_client_price:
  "create_build ObjectId lower (b\<lparr>total_price := x\<rparr>) s = create_build ObjectId lower b s"
proof -
  have 1: "components (b\<lparr>total_price := x\<rparr>) = components b" by simp
  have 2: "(b\<lparr>total_price := x\<rparr>)\<lparr>total_price := Some t\<rparr> = b\<lparr>total_price := Some t\<rparr>" for t
    by simp
  have 3: "compatibility_issues ObjectId lower (b\<lparr>total_price := x\<rparr>)
             = compatibility_issues ObjectId lower b"
    by (rule ext) (rule compat_cong [OF 1])
  show ?thesis unfolding create_build_def 1 2 3 ..
qed

text \<open>
  Claim C8. After a successful build creation the returned and the stored
  \<open>total_price\<close> are the sum of the catalog prices of the referenced components, a
  component without a declared price counting as zero; the \<open>total_price\<close> the client
  supplied plays no part. The only law of float addition used is \<open>y + 0.0 = y\<close>.
\<close>

theorem create_build_total_price:
  fixes t :: "'f::{zero,plus}"
  assumes "create_build ObjectId lower b s = (Inr (i, t), s')" and "\<forall>y::'f. y + 0 = y"
  shows "t = price_sum ObjectId s (components b)
       \<and> (\<exists>d. build s' = build s @ [d] \<and> total_price d = Some t)
       \<and> create_build ObjectId lower (b\<lparr>total_price := x\<rparr>) s = (Inr (i, t), s')"
proof (intro conjI)
  show "t = price_sum ObjectId s (components b)"
    using create_build_Inr(2) [OF assms(1)] price_total_sum [OF assms(2)]
    by (simp add: price_sum_def)
  from create_build_Inr(5) [OF assms(1)]
  show "\<exists>d. build s' = build s @ [d] \<and> total_price d = Some t" by auto
  show "create_build ObjectId lower (b\<lparr>total_price := x\<rparr>) s = (Inr (i, t), s')"
    using assms(1) by (simp only: create_build_client_price)
qed


lemmas create_defs = create_build_def not_found_def invalid_id_def logged_def

theorem create_build_total_price_witness:
  "(\<forall>y::real. y + 0 = y)
   \<and> fst (create_build ex_ObjectId ex_lower (ex_build [ref ''c1'' ''cpu'', ref ''c2'' ''motherboard''])
            ex_db) = Inr (0, 500)
   \<and> price_sum ex_ObjectId ex_db
        (components (ex_build [ref ''c1'' ''cpu'', ref ''c2'' ''motherboard''])) = 300 + 200
   \<and> fst (create_build ex_ObjectId ex_lower
            ((ex_build [ref ''c1'' ''cpu'', ref ''c2'' ''motherboard''])\<lparr>total_price := Some 1\<rparr>)
            ex_db) = Inr (0, 500)"
proof -
  let ?b = "ex_build [ref ''c1'' ''cpu'', ref ''c2'' ''motherboard'']"
  have h: "fst (create_build ex_ObjectId ex_lower ?b ex_db) = Inr (0, 500)"
    by (simp add: run_defs rule_defs create_defs)
  then have h': "create_build ex_ObjectId ex_lower ?b ex_db
                   = (Inr (0, 500), snd (create_build ex_ObjectId ex_lower ?b ex_db))"
    by (simp add: prod_eq_iff)
  have law: "\<forall>y::real. y + 0 = y" by simp
  from create_build_total_price [OF h' law, of "Some 1"]
  have "500 = price_sum ex_ObjectId ex_db (components ?b)"
    and "fst (create_build ex_ObjectId ex_lower (?b\<lparr>total_price := Some 1\<rparr>) ex_db) = Inr (0, 500)"
    by simp_all
  with h law show ?thesis by simp
qed


section \<open>Malformed and missing references\<close>

lemma create_build_price_error:
  assumes "price_loop ObjectId (components b) 0 s = (Inl e, s1)"
  shows "create_build ObjectId lower b s = (Inl e, s1)"
  using assms by (simp add: create_build_def)


lemma create_build_missing:
  assumes "components b = pre @ bc # post" "list_all (resolved ObjectId s) pre"
    "ObjectId (component_id bc) = Some kb" "component s kb = None"
  shows "create_build ObjectId lower b s =
    (Inl (not_found (component_id bc)), logged s (keys_of ObjectId pre @ [kb]))"
  by (rule create_build_price_error)
    (simp add: assms(1) price_loop_missing [OF assms(2,3,4)])




lemma role_last:
  assumes "\<forall>y\<in>set post. BuildComponent.type y \<noteq> BuildComponent.type x"
  shows "role ObjectId s (pre @ x # post) (BuildComponent.type x) = resolve ObjectId s x"
proof -
  have "filter (\<lambda>bc. BuildComponent.type bc = BuildComponent.type x) post = []"
    using assms by (simp add: filter_empty_conv)
  then show ?thesis by (simp add: role_alt)
qed

lemma silent_rules:
  "\<forall>(r, tag) \<in> set rule_needs.
     role ObjectId s bcs r = None \<longrightarrow> filter (prefix tag) (all_rules ObjectId lower s bcs est) = []"
  by (simp add: rule_needs_def filter_all_rules socket_rule_def ram_rule_def gpu_rule_def
      cooler_rule_def psu_rule_def psu_form_rule_def mobo_form_rule_def split: option.splits)

text \<open>
  Claim C6 (amended). At the first reference whose well-formed identifier has no
  catalog entry, all references before it having one, build creation fails with the
  404 that names it and stores nothing. When the remaining identifiers are well-formed
  too, the compatibility check raises no HTTP error and returns its list when the tdp
  sum is below \<open>2 ^ 48\<close>; the role of the missing reference is absent unless a later
  reference has the same role, and every rule that reads an absent role contributes
  no message.
\<close>

theorem missing_component_strict_lenient:
  assumes "components b = pre @ bc # post" "list_all (resolved ObjectId s) pre"
    "well_formed ObjectId bc" "\<not> resolved ObjectId s bc"
  shows "fst (create_build ObjectId lower b s) = Inl (not_found (component_id bc))
       \<and> build (snd (create_build ObjectId lower b s)) = build s
       \<and> (list_all (well_formed ObjectId) post
            \<longrightarrow> (\<forall>c d. fst (compatibility_issues ObjectId lower b s) \<noteq> Inl (HTTPException c d)))
       \<and> (list_all (well_formed ObjectId) post \<and> tdp_sum ObjectId s (components b) < 2 ^ 48
            \<longrightarrow> (\<exists>issues. fst (compatibility_issues ObjectId lower b s) = Inr issues))
       \<and> ((\<forall>x\<in>set post. BuildComponent.type x \<noteq> BuildComponent.type bc)
            \<longrightarrow> role ObjectId s (components b) (BuildComponent.type bc) = None)
       \<and> (\<forall>issues. fst (compatibility_issues ObjectId lower b s) = Inr issues
            \<longrightarrow> (\<forall>(r, tag) \<in> set rule_needs.
                   role ObjectId s (components b) r = None
                   \<longrightarrow> filter (prefix tag) issues = []))"
proof (intro conjI impI allI)
  from assms(3) obtain kb where kb: "ObjectId (component_id bc) = Some kb"
    by (auto simp: well_formed_def)
  with assms(4) have none: "component s kb = None" by (simp add: resolved_def resolve_def)
  note cb = create_build_missing [OF assms(1,2) kb none]
  show "fst (create_build ObjectId lower b s) = Inl (not_found (component_id bc))"
    by (simp add: cb)
  show "build (snd (create_build ObjectId lower b s)) = build s"
    by (simp add: cb)
  have wf_pre: "list_all (well_formed ObjectId) pre"
    using assms(2) by (auto simp: list_all_iff dest: resolved_well_formed)
  show "fst (compatibility_issues ObjectId lower b s) \<noteq> Inl (HTTPException c d)"
    if "list_all (well_formed ObjectId) post" for c d
  proof -
    have wf: "list_all (well_formed ObjectId) (components b)"
      using wf_pre assms(3) that by (simp add: assms(1))
    show ?thesis
    proof (cases "tdp_sum ObjectId s (components b) = 0")
      case True
      then show ?thesis by (simp add: compat_ok [OF wf] est_result_def)
    next
      case False
      then show ?thesis
        by (simp add: compat_ok [OF wf] est_result_def int_mul_1_3_def Let_def
            split: sum.splits if_splits)
    qed
  qed
  show "\<exists>issues. fst (compatibility_issues ObjectId lower b s) = Inr issues"
    if "list_all (well_formed ObjectId) post \<and> tdp_sum ObjectId s (components b) < 2 ^ 48"
  proof -
    have wf: "list_all (well_formed ObjectId) (components b)"
      using wf_pre assms(3) that by (simp add: assms(1))
    from that have "est_result ObjectId s (components b)
                      = Inr (13 * tdp_sum ObjectId s (components b) div 10)"
      by (simp add: est_result_def int_mul_1_3_exact)
    then show ?thesis by (simp add: compat_ok [OF wf])
  qed
  show "role ObjectId s (components b) (BuildComponent.type bc) = None"
    if "\<forall>x\<in>set post. BuildComponent.type x \<noteq> BuildComponent.type bc"
    using role_last [OF that, of ObjectId s pre] assms(4)
    by (simp add: assms(1) resolved_def)
  show "\<forall>(r, tag) \<in> set rule_needs.
          role ObjectId s (components b) r = None \<longrightarrow> filter (prefix tag) issues = []"
    if "fst (compatibility_issues ObjectId lower b s) = Inr issues" for issues
  proof -
    from that obtain est where i: "issues = all_rules ObjectId lower s (components b) est"
      by (rule compat_Inr)
    show ?thesis unfolding i by (rule silent_rules)
  qed
qed

theorem missing_component_strict_lenient_witness:
  "components (ex_build [ref ''c1'' ''cpu'', ref ''c9'' ''ram'', ref ''c2'' ''motherboard''])
     = [ref ''c1'' ''cpu''] @ ref ''c9'' ''ram'' # [ref ''c2'' ''motherboard'']
   \<and> list_all (resolved ex_ObjectId ex_db) [ref ''c1'' ''cpu'']
   \<and> well_formed ex_ObjectId (ref ''c9'' ''ram'')
   \<and> \<not> resolved ex_ObjectId ex_db (ref ''c9'' ''ram'')
   \<and> fst (create_build ex_ObjectId ex_lower
             (ex_build [ref ''c1'' ''cpu'', ref ''c9'' ''ram'', ref ''c2'' ''motherboard'']) ex_db)
       = Inl (HTTPException 404 (Text ''Component not found: c9''))
   \<and> build (snd (create_build ex_ObjectId ex_lower
             (ex_build [ref ''c1'' ''cpu'', ref ''c9'' ''ram'', ref ''c2'' ''motherboard'']) ex_db))
       = []
   \<and> role ex_ObjectId ex_db
        (components (ex_build [ref ''c1'' ''cpu'', ref ''c9'' ''ram'', ref ''c2'' ''motherboard'']))
        ''ram'' = None
   \<and> (\<exists>issues.
        fst (compatibility_issues ex_ObjectId ex_lower
               (ex_build [ref ''c1'' ''cpu'', ref ''c9'' ''ram'', ref ''c2'' ''motherboard''])
               ex_db) = Inr issues
        \<and> filter (prefix ''RAM type '') issues = [])"
proof -
  let ?b = "ex_build [ref ''c1'' ''cpu'', ref ''c9'' ''ram'', ref ''c2'' ''motherboard'']"
  have 1: "components ?b = [ref ''c1'' ''cpu''] @ ref ''c9'' ''ram'' # [ref ''c2'' ''motherboard'']"
    by (simp add: ex_build_def)
  have 2: "list_all (resolved ex_ObjectId ex_db) [ref ''c1'' ''cpu'']"
    by (simp add: ex_defs resolved_def)
  have 3: "well_formed ex_ObjectId (ref ''c9'' ''ram'')"
    by (simp add: ex_defs)
  have 4: "\<not> resolved ex_ObjectId ex_db (ref ''c9'' ''ram'')"
    by (simp add: ex_defs resolved_def)
  have 5: "list_all (well_formed ex_ObjectId) [ref ''c2'' ''motherboard'']
           \<and> tdp_sum ex_ObjectId ex_db (components ?b) < 2 ^ 48"
    by (simp add: ex_defs)
  have 6: "\<forall>x\<in>set [ref ''c2'' ''motherboard''].
             BuildComponent.type x \<noteq> BuildComponent.type (ref ''c9'' ''ram'')"
    by (simp add: ref_def)
  have 7: "(''ram'', ''RAM type '') \<in> set rule_needs" by (simp add: rule_needs_def)
  note t = missing_component_strict_lenient [OF 1 2 3 4]
  from t have a: "fst (create_build ex_ObjectId ex_lower ?b ex_db) = Inl (not_found (component_id (ref ''c9'' ''ram'')))"
    and b: "build (snd (create_build ex_ObjectId ex_lower ?b ex_db)) = build ex_db"
    by blast+
  from t 5 obtain issues where i: "fst (compatibility_issues ex_ObjectId ex_lower ?b ex_db) = Inr issues"
    by blast
  from t 6 have r: "role ex_ObjectId ex_db (components ?b) (BuildComponent.type (ref ''c9'' ''ram'')) = None"
    by blast
  then have r': "role ex_ObjectId ex_db (components ?b) ''ram'' = None" by (simp add: ref_def)
  from t i have "\<forall>(r, tag) \<in> set rule_needs.
                   role ex_ObjectId ex_db (components ?b) r = None
                   \<longrightarrow> filter (prefix tag) issues = []"
    by blast
  with 7 r' have f: "filter (prefix ''RAM type '') issues = []" by blast
  from a have a': "fst (create_build ex_ObjectId ex_lower ?b ex_db)
                     = Inl (HTTPException 404 (Text ''Component not found: c9''))"
    by (simp add: not_found_def ref_def)
  from b have b': "build (snd (create_build ex_ObjectId ex_lower ?b ex_db)) = []"
    by (simp add: ex_db_def)
  from 1 2 3 4 a' b' r' i f show ?thesis by blast
qed

theorem missing_component_counterexample:
  "ex_ObjectId ''c9'' = Some 9 \<and> ex_catalog 9 = None
   \<and> ex_ObjectId ''c10'' = Some 10 \<and> ex_catalog 10 = None
   \<and> fst (create_build ex_ObjectId ex_lower (ex_build [ref ''c9'' ''cpu'', ref ''c10'' ''ram'']) ex_db)
       = Inl (HTTPException 404 (Text ''Component not found: c9''))
   \<and> fst (create_build ex_ObjectId ex_lower (ex_build [ref ''zz'' ''cpu'', ref ''c9'' ''ram'']) ex_db)
       = Inl (HTTPException 400 (Text ''Invalid id''))
   \<and> fst (compatibility_issues ex_ObjectId ex_lower
            (ex_build [ref ''c9'' ''cpu'', ref ''c16'' ''cpu'', ref ''c2'' ''motherboard''])
            ex_db)
       = Inr [''CPU socket LGA1700 not compatible with motherboard am5'']"
  by (simp add: run_defs rule_defs create_defs)

text \<open>
  Claim C9 (amended). The component of a role is the one its last reference resolves
  to; the checker's result depends on the components of the seven roles and on the
  estimate only; and the estimate is computed from the sum of the declared tdp over
  every reference of the list, duplicates of a role included. An overwritten
  reference can therefore still change the PSU sizing rule, through the estimate.
\<close>

theorem duplicate_roles:
  assumes "fst (estimate_wattage ObjectId b s) = Inr est"
  shows "(\<forall>pre x post.
            components b = pre @ x # post
            \<and> (\<forall>y\<in>set post. BuildComponent.type y \<noteq> BuildComponent.type x)
            \<longrightarrow> role ObjectId s (components b) (BuildComponent.type x) = resolve ObjectId s x)
       \<and> (\<forall>b'. fst (estimate_wattage ObjectId b' s) = Inr est
            \<and> (\<forall>r \<in> set [''cpu'', ''motherboard'', ''ram'', ''gpu'', ''case'', ''psu'', ''cooler''].
                  role ObjectId s (components b') r = role ObjectId s (components b) r)
            \<longrightarrow> fst (compatibility_issues ObjectId lower b' s) = fst (compatibility_issues ObjectId lower b s))
       \<and> Inr est =
           (if sum_list (map (\<lambda>bc. declared_tdp (resolve ObjectId s bc)) (components b)) \<noteq> 0
            then int_mul_1_3
                   (sum_list (map (\<lambda>bc. declared_tdp (resolve ObjectId s bc)) (components b)))
            else Inr 0)"
proof (intro conjI allI impI)
  fix pre x post
  assume "components b = pre @ x # post
            \<and> (\<forall>y\<in>set post. BuildComponent.type y \<noteq> BuildComponent.type x)"
  then show "role ObjectId s (components b) (BuildComponent.type x) = resolve ObjectId s x"
    by (simp add: role_last)
next
  fix b'
  assume h: "fst (estimate_wattage ObjectId b' s) = Inr est
            \<and> (\<forall>r \<in> set [''cpu'', ''motherboard'', ''ram'', ''gpu'', ''case'', ''psu'', ''cooler''].
                  role ObjectId s (components b') r = role ObjectId s (components b) r)"
  then have "all_rules ObjectId lower s (components b') est = all_rules ObjectId lower s (components b) est"
    by (simp add: all_rules_def)
  with h show "fst (compatibility_issues ObjectId lower b' s) = fst (compatibility_issues ObjectId lower b s)"
    by (simp add: compat_of_estimate [OF assms] compat_of_estimate [where ObjectId = ObjectId and lower = lower and b = b' and s = s and est = est])
next
  have wf: "list_all (well_formed ObjectId) (components b)"
    using assms by (rule estimate_Inr_wf)
  have e: "fst (estimate_wattage ObjectId b s) =
           (if tdp_sum ObjectId s (components b) \<noteq> 0
            then int_mul_1_3 (tdp_sum ObjectId s (components b)) else Inr 0)"
    by (simp add: estimate_wattage_ok [OF wf])
  show "Inr est =
           (if sum_list (map (\<lambda>bc. declared_tdp (resolve ObjectId s bc)) (components b)) \<noteq> 0
            then int_mul_1_3
                   (sum_list (map (\<lambda>bc. declared_tdp (resolve ObjectId s bc)) (components b)))
            else Inr 0)"
    using assms unfolding e tdp_sum_def by (rule sym)
qed

theorem duplicate_roles_counterexample:
  "role ex_ObjectId ex_db
      (components (ex_build [ref ''c7'' ''gpu'', ref ''c4'' ''gpu'', ref ''c6'' ''psu''])) ''gpu''
     = role ex_ObjectId ex_db (components (ex_build [ref ''c4'' ''gpu'', ref ''c6'' ''psu'']))
         ''gpu''
   \<and> role ex_ObjectId ex_db
      (components (ex_build [ref ''c7'' ''gpu'', ref ''c4'' ''gpu'', ref ''c6'' ''psu''])) ''psu''
     = role ex_ObjectId ex_db (components (ex_build [ref ''c4'' ''gpu'', ref ''c6'' ''psu'']))
         ''psu''
   \<and> fst (compatibility_issues ex_ObjectId ex_lower
            (ex_build [ref ''c7'' ''gpu'', ref ''c4'' ''gpu'', ref ''c6'' ''psu'']) ex_db)
       = Inr [''PSU wattage too low. Estimated 715W, PSU is 500W'']
   \<and> fst (compatibility_issues ex_ObjectId ex_lower
            (ex_build [ref ''c4'' ''gpu'', ref ''c6'' ''psu'']) ex_db) = Inr []"
  by (simp add: run_defs rule_defs)

theorem duplicate_roles_witness:
  "fst (estimate_wattage ex_ObjectId
          (ex_build [ref ''c7'' ''gpu'', ref ''c4'' ''gpu'', ref ''c6'' ''psu'']) ex_db) = Inr 715
   \<and> role ex_ObjectId ex_db
        (components (ex_build [ref ''c7'' ''gpu'', ref ''c4'' ''gpu'', ref ''c6'' ''psu'']))
        ''gpu'' = ex_catalog 4
   \<and> (Inr 715 :: error + nat) = int_mul_1_3 (400 + 150 + 0)
   \<and> fst (compatibility_issues ex_ObjectId ex_lower
            (ex_build [ref ''c7'' ''storage'', ref ''c4'' ''gpu'', ref ''c6'' ''psu'']) ex_db)
       = fst (compatibility_issues ex_ObjectId ex_lower
            (ex_build [ref ''c7'' ''gpu'', ref ''c4'' ''gpu'', ref ''c6'' ''psu'']) ex_db)"
proof -
  let ?b = "ex_build [ref ''c7'' ''gpu'', ref ''c4'' ''gpu'', ref ''c6'' ''psu'']"
  let ?b' = "ex_build [ref ''c7'' ''storage'', ref ''c4'' ''gpu'', ref ''c6'' ''psu'']"
  have h: "fst (estimate_wattage ex_ObjectId ?b ex_db) = Inr 715"
    by (simp add: run_defs)
  have h': "fst (estimate_wattage ex_ObjectId ?b' ex_db) = Inr 715"
    by (simp add: run_defs)
  have c: "components ?b = [ref ''c7'' ''gpu''] @ ref ''c4'' ''gpu'' # [ref ''c6'' ''psu'']
           \<and> (\<forall>y\<in>set [ref ''c6'' ''psu''].
                 BuildComponent.type y \<noteq> BuildComponent.type (ref ''c4'' ''gpu''))"
    by (simp add: ex_build_def ref_def)
  have roles: "\<forall>r \<in> set [''cpu'', ''motherboard'', ''ram'', ''gpu'', ''case'', ''psu'', ''cooler''].
                  role ex_ObjectId ex_db (components ?b') r
                    = role ex_ObjectId ex_db (components ?b) r"
    by (simp add: ex_build_def ref_def role_def)
  note t = duplicate_roles [OF h]
  from t c have "role ex_ObjectId ex_db (components ?b) (BuildComponent.type (ref ''c4'' ''gpu''))
                   = resolve ex_ObjectId ex_db (ref ''c4'' ''gpu'')"
    by blast
  then have 1: "role ex_ObjectId ex_db (components ?b) ''gpu'' = ex_catalog 4"
    by (simp add: ref_def resolve_def ex_ObjectId_def ex_db_def)
  from t h' roles have 2: "fst (compatibility_issues ex_ObjectId ex_lower ?b' ex_db)
                             = fst (compatibility_issues ex_ObjectId ex_lower ?b ex_db)"
    by blast
  from t have "Inr 715 =
           (if sum_list (map (\<lambda>bc. declared_tdp (resolve ex_ObjectId ex_db bc)) (components ?b)) \<noteq> 0
            then int_mul_1_3
                   (sum_list (map (\<lambda>bc. declared_tdp (resolve ex_ObjectId ex_db bc)) (components ?b)))
            else Inr 0)"
    by blast
  then have 3: "(Inr 715 :: error + nat) = int_mul_1_3 (400 + 150 + 0)"
    by (simp add: ex_defs)
  from h 1 2 3 show ?thesis by blast
qed

end
